theory Spec2Isabelle
  imports Complex_Main
begin

section \<open>JavaScript numbers\<close>

text \<open>
  A JavaScript \<^verbatim>\<open>number\<close> is an IEEE-754 double: finite, \<^verbatim>\<open>NaN\<close>,
  \<^verbatim>\<open>Infinity\<close> or \<^verbatim>\<open>-Infinity\<close>. A finite number is the real it denotes. The two
  zeros are one value here: the only operation that tells them apart is a division
  by zero, and the program returns before it divides by zero.
\<close>

datatype jsnum = Num real | NaN | PosInf | NegInf

text \<open>\<^verbatim>\<open>Number.isFinite(v)\<close> and \<^verbatim>\<open>isNaN(v)\<close> on a number.\<close>

fun isFinite :: "jsnum \<Rightarrow> bool" where
  "isFinite (Num r) = True"
| "isFinite NaN = False"
| "isFinite PosInf = False"
| "isFinite NegInf = False"

fun isNaN :: "jsnum \<Rightarrow> bool" where
  "isNaN NaN = True"
| "isNaN (Num r) = False"
| "isNaN PosInf = False"
| "isNaN NegInf = False"

subsection \<open>Rounding to the nearest double\<close>

text \<open>
  Every arithmetic operation returns its exact result rounded to the nearest
  double, ties to the even significand. A double \<open>r\<close> with \<open>2 ^ e \<le> |r| < 2 ^ (e + 1)\<close>
  is a multiple of \<open>2 ^ (e - 52)\<close>; below \<open>2 ^ (- 1022)\<close> the spacing stays that of
  the lowest binade (the subnormal numbers), and a rounded magnitude of
  \<open>2 ^ 1024\<close> or more is an overflow to the infinity of the same sign.
\<close>

definition exponent :: "real \<Rightarrow> int" where
  "exponent r = max \<lfloor>log 2 \<bar>r\<bar>\<rfloor> (- 1022)"

definition ulp :: "real \<Rightarrow> real" where
  "ulp r = 2 powi (exponent r - 52)"

definition round_half_even :: "real \<Rightarrow> int" where
  "round_half_even q =
     (let f = \<lfloor>q\<rfloor>; d = q - of_int f
      in if d < 1 / 2 then f
         else if 1 / 2 < d then f + 1
         else if even f then f else f + 1)"

definition round64 :: "real \<Rightarrow> jsnum" where
  "round64 r =
     (if r = 0 then Num 0
      else
        let v = of_int (round_half_even (r / ulp r)) * ulp r
        in if (2::real) ^ 1024 \<le> \<bar>v\<bar> then (if 0 < r then PosInf else NegInf) else Num v)"

subsection \<open>The operations\<close>

text \<open>
  Sum, difference, product, quotient and square root of doubles, with the IEEE-754
  results for the non-finite operands: \<^verbatim>\<open>NaN\<close> is contagious, opposite infinities
  add to \<^verbatim>\<open>NaN\<close>, an infinity times zero and a quotient of infinities are
  \<^verbatim>\<open>NaN\<close>, and the square root of a negative number is \<^verbatim>\<open>NaN\<close>.
\<close>

fun negate :: "jsnum \<Rightarrow> jsnum" where
  "negate (Num r) = Num (- r)"
| "negate NaN = NaN"
| "negate PosInf = NegInf"
| "negate NegInf = PosInf"

definition signed_inf :: "real \<Rightarrow> jsnum" where
  "signed_inf s = (if s = 0 then NaN else if 0 < s then PosInf else NegInf)"

fun fadd :: "jsnum \<Rightarrow> jsnum \<Rightarrow> jsnum" where
  "fadd (Num a) (Num b) = round64 (a + b)"
| "fadd NaN y = NaN"
| "fadd x NaN = NaN"
| "fadd PosInf NegInf = NaN"
| "fadd NegInf PosInf = NaN"
| "fadd PosInf y = PosInf"
| "fadd x PosInf = PosInf"
| "fadd NegInf y = NegInf"
| "fadd x NegInf = NegInf"

definition fsub :: "jsnum \<Rightarrow> jsnum \<Rightarrow> jsnum" where
  "fsub x y = fadd x (negate y)"

fun fmul :: "jsnum \<Rightarrow> jsnum \<Rightarrow> jsnum" where
  "fmul (Num a) (Num b) = round64 (a * b)"
| "fmul NaN y = NaN"
| "fmul x NaN = NaN"
| "fmul (Num a) PosInf = signed_inf a"
| "fmul (Num a) NegInf = signed_inf (- a)"
| "fmul PosInf (Num b) = signed_inf b"
| "fmul NegInf (Num b) = signed_inf (- b)"
| "fmul PosInf PosInf = PosInf"
| "fmul NegInf NegInf = PosInf"
| "fmul PosInf NegInf = NegInf"
| "fmul NegInf PosInf = NegInf"

fun fdiv :: "jsnum \<Rightarrow> jsnum \<Rightarrow> jsnum" where
  "fdiv (Num a) (Num b) = (if b = 0 then signed_inf a else round64 (a / b))"
| "fdiv NaN y = NaN"
| "fdiv x NaN = NaN"
| "fdiv (Num a) PosInf = Num 0"
| "fdiv (Num a) NegInf = Num 0"
| "fdiv PosInf (Num b) = (if 0 \<le> b then PosInf else NegInf)"
| "fdiv NegInf (Num b) = (if 0 \<le> b then NegInf else PosInf)"
| "fdiv PosInf PosInf = NaN"
| "fdiv PosInf NegInf = NaN"
| "fdiv NegInf PosInf = NaN"
| "fdiv NegInf NegInf = NaN"

fun fsqrt :: "jsnum \<Rightarrow> jsnum" where
  "fsqrt (Num a) = (if a < 0 then NaN else round64 (sqrt a))"
| "fsqrt NaN = NaN"
| "fsqrt PosInf = PosInf"
| "fsqrt NegInf = NaN"

text \<open>\<^verbatim>\<open>xs[i]\<close>: reading at or past the length gives \<^verbatim>\<open>undefined\<close>.\<close>

definition index :: "'a list \<Rightarrow> nat \<Rightarrow> 'a option" where
  "index xs i = (if i < length xs then Some (xs ! i) else None)"


section \<open>Strings, names and the shared types (types.ts)\<close>

text \<open>
  Cell text is a \<^typ>\<open>string\<close>, one \<^typ>\<open>char\<close> per code unit (the code units
  up to U+00FF). A series name is a JavaScript string too, but no function of the
  program inspects a name beyond testing it for emptiness, so a name is carried as
  the expression that produced it:
  \<^item> \<open>Text s\<close>: the text \<open>s\<close> itself (\<^verbatim>\<open>String\<close> of a string or of a boolean);
  \<^item> \<open>NumText n\<close>: \<^verbatim>\<open>String(n)\<close> of a number, never empty;
  \<^item> \<open>ColLabel i\<close>: the template \<^verbatim>\<open>`<column> ${String.fromCharCode(65 + i)}`\<close>, where
    \<^verbatim>\<open><column>\<close> is the two-character word of the source;
  \<^item> \<open>RowLabel k\<close>: the template \<^verbatim>\<open>`<row> ${k}`\<close>.
\<close>

datatype label = Text string | NumText jsnum | ColLabel nat | RowLabel nat

record VariableData =
  name :: label
  "values" :: "jsnum list"

record Matrix =
  variables :: "label list"
  grid :: "jsnum list list"


section \<open>The correlation engine (utils/statistics.ts)\<close>

subsection \<open>calculatePearsonCorrelation\<close>

text \<open>
  The accumulators of the loop: five doubles and the counter \<^verbatim>\<open>validCount\<close>. The
  counter is a double too, but an array has fewer than \<open>2 ^ 32\<close> elements and every
  integer up to \<open>2 ^ 53\<close> is a double, so it counts exactly and is a natural number
  here.
\<close>

record accumulators =
  sumX :: jsnum
  sumY :: jsnum
  sumXY :: jsnum
  sumXSq :: jsnum
  sumYSq :: jsnum
  validCount :: nat

definition init_sums :: accumulators where
  "init_sums = \<lparr>sumX = Num 0, sumY = Num 0, sumXY = Num 0, sumXSq = Num 0, sumYSq = Num 0,
                 validCount = 0\<rparr>"

text \<open>
  One iteration of the loop body at position \<open>i\<close>. The two \<^verbatim>\<open>continue\<close>
  statements leave the accumulators untouched: the first when either side is
  \<^verbatim>\<open>undefined\<close>, the second when either side is not finite.
\<close>

definition accumulate :: "jsnum \<Rightarrow> jsnum \<Rightarrow> accumulators \<Rightarrow> accumulators" where
  "accumulate xi yi s =
     \<lparr>sumX = fadd (sumX s) xi, sumY = fadd (sumY s) yi, sumXY = fadd (sumXY s) (fmul xi yi),
      sumXSq = fadd (sumXSq s) (fmul xi xi), sumYSq = fadd (sumYSq s) (fmul yi yi),
      validCount = validCount s + 1\<rparr>"

definition pearson_step :: "jsnum list \<Rightarrow> jsnum list \<Rightarrow> nat \<Rightarrow> accumulators \<Rightarrow> accumulators" where
  "pearson_step x y i s =
     (case index x i of
        None \<Rightarrow> s
      | Some xi \<Rightarrow>
          (case index y i of
             None \<Rightarrow> s
           | Some yi \<Rightarrow> if isFinite xi \<and> isFinite yi then accumulate xi yi s else s))"

text \<open>The function returns \<^verbatim>\<open>number | null\<close>; \<^verbatim>\<open>null\<close> is \<open>None\<close>.\<close>

definition calculatePearsonCorrelation :: "jsnum list \<Rightarrow> jsnum list \<Rightarrow> jsnum option" where
  "calculatePearsonCorrelation x y =
     (let maxLen = max (length x) (length y);
          s = fold (pearson_step x y) [0..<maxLen] init_sums
      in if validCount s < 2 then None
         else
           let n = Num (real (validCount s));
               numerator = fsub (fmul n (sumXY s)) (fmul (sumX s) (sumY s));
               denominator = fsqrt
                 (fmul (fsub (fmul n (sumXSq s)) (fmul (sumX s) (sumX s)))
                       (fsub (fmul n (sumYSq s)) (fmul (sumY s) (sumY s))))
           in if denominator = Num 0 then Some (Num 0)
              else Some (fdiv numerator denominator))"

subsection \<open>generateCorrelationMatrix\<close>

text \<open>
  The function has no \<^verbatim>\<open>throw\<close> of its own, but two of its expressions fail
  when an index is out of range: \<^verbatim>\<open>data[i].values\<close> and the row lookup of
  \<^verbatim>\<open>grid[i][j] = v\<close> raise a \<^verbatim>\<open>TypeError\<close> on \<^verbatim>\<open>undefined\<close>. A write at or past
  the end of an existing row would not raise: it would grow that row and leave
  holes in it, which a \<^verbatim>\<open>number[][]\<close> of the model cannot hold, so the model
  reports it as \<open>RowGrows\<close>. Both are values of the result type, and the
  theorems below show that neither occurs.
\<close>

datatype fault = TypeError | RowGrows

definition set_cell :: "nat \<Rightarrow> nat \<Rightarrow> jsnum \<Rightarrow> jsnum list list \<Rightarrow> fault + jsnum list list" where
  "set_cell i j v g =
     (if i < length g
      then (if j < length (g ! i) then Inr (g[i := (g ! i)[j := v]]) else Inl RowGrows)
      else Inl TypeError)"

text \<open>
  \<^verbatim>\<open>for (let i = 0; i < n; i++) body\<close> runs the body at \<open>0, \<dots>, n - 1\<close> and
  stops at the first fault.
\<close>

fun for_loop :: "nat list \<Rightarrow> (nat \<Rightarrow> 's \<Rightarrow> fault + 's) \<Rightarrow> 's \<Rightarrow> fault + 's" where
  "for_loop [] body s = Inr s"
| "for_loop (i # is) body s =
     (case body i s of Inl e \<Rightarrow> Inl e | Inr s' \<Rightarrow> for_loop is body s')"

text \<open>The body of the inner loop at row \<open>i\<close> and column \<open>j\<close>.\<close>

definition cell_step :: "VariableData list \<Rightarrow> nat \<Rightarrow> nat \<Rightarrow> jsnum list list \<Rightarrow> fault + jsnum list list" where
  "cell_step data i j g =
     (if i = j then set_cell i j (Num 1) g
      else if j > i then
        (case index data i of
           None \<Rightarrow> Inl TypeError
         | Some di \<Rightarrow>
             (case index data j of
                None \<Rightarrow> Inl TypeError
              | Some dj \<Rightarrow>
                  (let corr = calculatePearsonCorrelation (values di) (values dj);
                       val = (case corr of Some c \<Rightarrow> c | None \<Rightarrow> Num 0)
                   in case set_cell i j val g of
                        Inl e \<Rightarrow> Inl e
                      | Inr g' \<Rightarrow> set_cell j i val g')))
      else Inr g)"

text \<open>
  \<^verbatim>\<open>Array(n).fill(null).map(() => Array(n).fill(0))\<close> builds \<open>n\<close> separate rows
  of \<open>n\<close> zeros: no two rows are the same array, so a list of lists is the grid.
\<close>

definition generateCorrelationMatrix :: "VariableData list \<Rightarrow> fault + Matrix" where
  "generateCorrelationMatrix data =
     (let variables = map name data;
          n = length variables;
          grid0 = replicate n (replicate n (Num 0))
      in case for_loop [0..<n] (\<lambda>i. for_loop [0..<n] (\<lambda>j. cell_step data i j)) grid0 of
           Inl e \<Rightarrow> Inl e
         | Inr g \<Rightarrow> Inr \<lparr>variables = variables, grid = g\<rparr>)"


section \<open>Cells of the raw table\<close>

text \<open>
  \<^verbatim>\<open>ParsedData.rows\<close> is an \<^verbatim>\<open>any[][]\<close> filled by the sheet decoder: a cell
  is \<^verbatim>\<open>null\<close> or \<^verbatim>\<open>undefined\<close> (both \<open>Absent\<close>: every test of the program
  treats the two alike), a string, a number or a boolean.
\<close>

datatype cell = Absent | Str string | Number jsnum | Boolean bool

text \<open>\<^verbatim>\<open>row[colIdx]\<close>: \<^verbatim>\<open>undefined\<close> at or past the end of a ragged row.\<close>

definition cellAt :: "cell list \<Rightarrow> nat \<Rightarrow> cell" where
  "cellAt row colIdx = (case index row colIdx of Some c \<Rightarrow> c | None \<Rightarrow> Absent)"

subsection \<open>parseFloat\<close>

text \<open>
  The built-in \<^verbatim>\<open>parseFloat\<close>: skip leading white space, then read the longest
  prefix that is a decimal literal: an optional sign, then \<^verbatim>\<open>Infinity\<close> or
  digits with an optional fraction and an optional exponent. No such prefix gives
  \<^verbatim>\<open>NaN\<close>. The value of the literal is rounded to the nearest double.
\<close>

definition isWhiteSpace :: "char \<Rightarrow> bool" where
  "isWhiteSpace c = (of_char c \<in> {9, 10, 11, 12, 13, 32, 160 :: nat})"

definition isDigit :: "char \<Rightarrow> bool" where
  "isDigit c = (48 \<le> (of_char c :: nat) \<and> (of_char c :: nat) \<le> 57)"

definition digitsVal :: "string \<Rightarrow> nat" where
  "digitsVal ds = fold (\<lambda>c n. 10 * n + (of_char c - 48)) ds 0"

definition exponentPart :: "string \<Rightarrow> int" where
  "exponentPart r =
     (case r of
        [] \<Rightarrow> 0
      | c # r' \<Rightarrow>
          if c = CHR ''e'' \<or> c = CHR ''E'' then
            (case r' of
               [] \<Rightarrow> 0
             | d # r'' \<Rightarrow>
                 if d = CHR ''+'' then int (digitsVal (takeWhile isDigit r''))
                 else if d = CHR ''-'' then - int (digitsVal (takeWhile isDigit r''))
                 else int (digitsVal (takeWhile isDigit r')))
          else 0)"

definition parseUnsigned :: "string \<Rightarrow> jsnum" where
  "parseUnsigned s =
     (if take 8 s = ''Infinity'' then PosInf
      else
        let ip = takeWhile isDigit s;
            r1 = dropWhile isDigit s;
            dotted = (r1 \<noteq> [] \<and> hd r1 = CHR ''.'');
            fp = (if dotted then takeWhile isDigit (tl r1) else []);
            r2 = (if dotted then dropWhile isDigit (tl r1) else r1)
        in if ip = [] \<and> fp = [] then NaN
           else round64 ((real (digitsVal ip) + real (digitsVal fp) / 10 ^ length fp)
                         * 10 powi exponentPart r2))"

definition parseFloat :: "string \<Rightarrow> jsnum" where
  "parseFloat s =
     (case dropWhile isWhiteSpace s of
        [] \<Rightarrow> NaN
      | c # r \<Rightarrow>
          if c = CHR ''-'' then negate (parseUnsigned r)
          else if c = CHR ''+'' then parseUnsigned r
          else parseUnsigned (c # r))"

text \<open>\<^verbatim>\<open>String(b)\<close> of a boolean.\<close>

definition boolText :: "bool \<Rightarrow> string" where
  "boolText b = (if b then ''true'' else ''false'')"

text \<open>\<^verbatim>\<open>String(c ?? d)\<close>: the name made of a cell, or \<open>d\<close> for an absent one.\<close>

definition String_or :: "cell \<Rightarrow> label \<Rightarrow> label" where
  "String_or c d =
     (case c of
        Absent \<Rightarrow> d
      | Str s \<Rightarrow> Text s
      | Number n \<Rightarrow> NumText n
      | Boolean b \<Rightarrow> Text (boolText b))"

subsection \<open>The two cell tests of the component\<close>

text \<open>
  \<^verbatim>\<open>typeof cell === 'number' || (typeof cell === 'string' && !isNaN(parseFloat(cell)))\<close>,
  the test of the default selection.
\<close>

definition looksNumeric :: "cell \<Rightarrow> bool" where
  "looksNumeric c =
     (case c of
        Number n \<Rightarrow> True
      | Str s \<Rightarrow> \<not> isNaN (parseFloat s)
      | _ \<Rightarrow> False)"

text \<open>
  The coercion of \<^verbatim>\<open>handleAnalyze\<close>: a number as it is, a string through
  \<^verbatim>\<open>parseFloat\<close> (\<^verbatim>\<open>isNaN(parsed) ? NaN : parsed\<close>), anything else \<^verbatim>\<open>NaN\<close>.
\<close>

definition coerceCell :: "cell \<Rightarrow> jsnum" where
  "coerceCell c =
     (case c of
        Number n \<Rightarrow> n
      | Str s \<Rightarrow> (let parsed = parseFloat s in if isNaN parsed then NaN else parsed)
      | _ \<Rightarrow> NaN)"


section \<open>The configuration component (components/DataConfig.tsx)\<close>

subsection \<open>detectHeaderRow\<close>

text \<open>
  The callback of \<^verbatim>\<open>firstRow.forEach\<close> on the pair (stringCount, numberCount).
  An absent cell returns at once. A string that does not parse counts as a string.
  Otherwise a number counts as a number, and so does any other cell whose
  \<^verbatim>\<open>String(cell)\<close> parses: a string is its own \<^verbatim>\<open>String\<close>, a boolean is
  \<^verbatim>\<open>"true"\<close> or \<^verbatim>\<open>"false"\<close>.
\<close>

definition header_step :: "cell \<Rightarrow> nat \<times> nat \<Rightarrow> nat \<times> nat" where
  "header_step c cnt =
     (case c of
        Absent \<Rightarrow> cnt
      | Str s \<Rightarrow>
          if isNaN (parseFloat s) then (fst cnt + 1, snd cnt)
          else (fst cnt, snd cnt + 1)
      | Number n \<Rightarrow> (fst cnt, snd cnt + 1)
      | Boolean b \<Rightarrow>
          if \<not> isNaN (parseFloat (boolText b)) then (fst cnt, snd cnt + 1) else cnt)"

definition detectHeaderRow :: "cell list list \<Rightarrow> bool" where
  "detectHeaderRow rows =
     (if length rows = 0 then False
      else
        let firstRow = rows ! 0;
            cnt = fold header_step firstRow (0, 0);
            stringCount = fst cnt;
            numberCount = snd cnt
        in stringCount > 0 \<and> stringCount \<ge> numberCount)"

subsection \<open>headers and dataRows\<close>

definition headers_of :: "cell list list \<Rightarrow> bool \<Rightarrow> label list" where
  "headers_of rows hasHeaderRow =
     (if hasHeaderRow \<and> length rows > 0 then map (\<lambda>h. String_or h (Text [])) (rows ! 0)
      else
        let maxCols = fold max (map length (take 10 rows)) 0
        in map ColLabel [0..<maxCols])"

definition dataRows_of :: "cell list list \<Rightarrow> bool \<Rightarrow> cell list list" where
  "dataRows_of rows hasHeaderRow =
     (if hasHeaderRow \<and> length rows > 0 then drop 1 rows else rows)"

subsection \<open>The selection, a Set of indices\<close>

text \<open>
  A JavaScript \<^verbatim>\<open>Set\<close> iterates in insertion order, so the selection is the
  list of its members in the order they were added. \<^verbatim>\<open>add\<close> of a member
  changes nothing, \<^verbatim>\<open>delete\<close> removes the member from its place.
\<close>

datatype orientation = Columns | Rows

definition set_add :: "nat \<Rightarrow> nat list \<Rightarrow> nat list" where
  "set_add x s = (if x \<in> set s then s else s @ [x])"

definition set_delete :: "nat \<Rightarrow> nat list \<Rightarrow> nat list" where
  "set_delete x s = filter (\<lambda>y. y \<noteq> x) s"

definition toggleItem :: "nat \<Rightarrow> nat list \<Rightarrow> nat list" where
  "toggleItem idx prev = (if idx \<in> set prev then set_delete idx prev else set_add idx prev)"

definition selectAll :: "label list \<Rightarrow> cell list list \<Rightarrow> orientation \<Rightarrow> nat list" where
  "selectAll headers dataRows ori =
     (case ori of
        Columns \<Rightarrow> fold set_add [0..<length headers] []
      | Rows \<Rightarrow> fold set_add [0..<length dataRows] [])"

text \<open>
  The effect that selects the numeric columns or rows. The threshold
  \<^verbatim>\<open>numericCount > checkRows.length * 0.3\<close> compares an integer count with
  three tenths of an integer length. The double \<^verbatim>\<open>0.3\<close> is a little less
  than \<open>3/10\<close>, but the product with a multiple of ten rounds to the integer
  \<open>3 * length / 10\<close> itself and any other product is at least a tenth away from every
  integer, so for a count the comparison is the one with the exact \<open>3/10\<close>.
\<close>

definition column_selected :: "cell list list \<Rightarrow> nat \<Rightarrow> bool" where
  "column_selected dataRows colIdx =
     (let checkRows = take 20 dataRows;
          numericCount = fold (\<lambda>row n. if looksNumeric (cellAt row colIdx) then n + 1 else n)
                           checkRows (0::nat)
      in length checkRows > 0 \<and> real numericCount > real (length checkRows) * (3 / 10))"

definition row_selected :: "cell list \<Rightarrow> bool" where
  "row_selected row =
     (let numericCount = fold (\<lambda>c n. if looksNumeric c then n + 1 else n) (drop 1 row) (0::nat)
      in length row > 1 \<and> real numericCount > (real (length row) - 1) * (3 / 10))"

text \<open>
  The earlier revision of the component has columns only and no test for an empty
  sample: \<^verbatim>\<open>if (numericCount > checkRows.length * 0.3)\<close>.
\<close>

definition column_selected_v1 :: "cell list list \<Rightarrow> nat \<Rightarrow> bool" where
  "column_selected_v1 dataRows colIdx =
     (let checkRows = take 20 dataRows;
          numericCount = fold (\<lambda>row n. if looksNumeric (cellAt row colIdx) then n + 1 else n)
                           checkRows (0::nat)
      in real numericCount > real (length checkRows) * (3 / 10))"

definition defaultSelection :: "label list \<Rightarrow> cell list list \<Rightarrow> orientation \<Rightarrow> nat list" where
  "defaultSelection headers dataRows ori =
     (case ori of
        Columns \<Rightarrow>
          fold (\<lambda>colIdx sel. if column_selected dataRows colIdx then set_add colIdx sel else sel)
            [0..<length headers] []
      | Rows \<Rightarrow>
          fold (\<lambda>rowIdx sel. if row_selected (dataRows ! rowIdx) then set_add rowIdx sel else sel)
            [0..<length dataRows] [])"

subsection \<open>handleAnalyze\<close>

text \<open>The two alerts after which \<^verbatim>\<open>handleAnalyze\<close> returns without calling \<^verbatim>\<open>onAnalyze\<close>.\<close>

datatype refusal = TooFewSelected | TooFewValid

text \<open>\<^verbatim>\<open>values.filter(v => !isNaN(v)).length\<close>.\<close>

definition validCountOf :: "jsnum list \<Rightarrow> nat" where
  "validCountOf vs = length (filter (\<lambda>v. \<not> isNaN v) vs)"

text \<open>
  The callback of \<^verbatim>\<open>selectedItems.forEach\<close> for a column. The inner
  \<^verbatim>\<open>dataRows.forEach\<close> pushes one coerced value per data row; the series is
  pushed when at least two of its values are not \<^verbatim>\<open>NaN\<close>.
  \<^verbatim>\<open>headers[colIdx] || fallback\<close> takes the fallback for a missing or empty header.
\<close>

definition column_values :: "cell list list \<Rightarrow> nat \<Rightarrow> jsnum list" where
  "column_values dataRows colIdx = map (\<lambda>row. coerceCell (cellAt row colIdx)) dataRows"

definition column_name :: "label list \<Rightarrow> nat \<Rightarrow> label" where
  "column_name headers colIdx =
     (case index headers colIdx of
        None \<Rightarrow> ColLabel colIdx
      | Some h \<Rightarrow> if h = Text [] then ColLabel colIdx else h)"

definition column_series :: "label list \<Rightarrow> cell list list \<Rightarrow> nat \<Rightarrow> VariableData option" where
  "column_series headers dataRows colIdx =
     (let vals = column_values dataRows colIdx;
          validCount = validCountOf vals
      in if validCount \<ge> 2
         then Some \<lparr>name = column_name headers colIdx, values = vals\<rparr>
         else None)"

text \<open>
  The callback for a row: \<^verbatim>\<open>if (!row) return\<close>, the label from the first cell,
  the values from the cells at \<open>1, \<dots>, row.length - 1\<close>.
\<close>

definition row_values :: "cell list \<Rightarrow> jsnum list" where
  "row_values row = map (\<lambda>colIdx. coerceCell (cellAt row colIdx)) [1..<length row]"

definition row_series :: "cell list list \<Rightarrow> nat \<Rightarrow> VariableData option" where
  "row_series dataRows rowIdx =
     (case index dataRows rowIdx of
        None \<Rightarrow> None
      | Some row \<Rightarrow>
          (let label = String_or (cellAt row 0) (RowLabel (rowIdx + 1));
               vals = row_values row;
               validCount = validCountOf vals
           in if validCount \<ge> 2 then Some \<lparr>name = label, values = vals\<rparr> else None))"

definition series_of :: "cell list list \<Rightarrow> bool \<Rightarrow> orientation \<Rightarrow> nat \<Rightarrow> VariableData option" where
  "series_of rows hasHeaderRow ori idx =
     (case ori of
        Columns \<Rightarrow> column_series (headers_of rows hasHeaderRow) (dataRows_of rows hasHeaderRow) idx
      | Rows \<Rightarrow> row_series (dataRows_of rows hasHeaderRow) idx)"

text \<open>\<^verbatim>\<open>variables.push\<close> inside \<^verbatim>\<open>forEach\<close>: the series in the order of the iteration.\<close>

definition push_each :: "(nat \<Rightarrow> VariableData option) \<Rightarrow> nat list \<Rightarrow> VariableData list" where
  "push_each f sel =
     fold (\<lambda>idx vars. case f idx of None \<Rightarrow> vars | Some v \<Rightarrow> vars @ [v]) sel []"

definition handleAnalyze ::
  "cell list list \<Rightarrow> bool \<Rightarrow> orientation \<Rightarrow> nat list \<Rightarrow> refusal + VariableData list" where
  "handleAnalyze rows hasHeaderRow ori selectedItems =
     (if length selectedItems < 2 then Inl TooFewSelected
      else
        let variables = push_each (series_of rows hasHeaderRow ori) selectedItems
        in if length variables < 2 then Inl TooFewValid else Inr variables)"


section \<open>The application (App.tsx)\<close>

text \<open>
  \<^verbatim>\<open>onAnalyze\<close> is the application's \<^verbatim>\<open>handleAnalyze\<close>, which passes the
  variables to \<^verbatim>\<open>generateCorrelationMatrix\<close>; after a refusal it is not called.
\<close>

datatype analysis = Refused refusal | Crashed fault | Shown Matrix

definition run_analysis :: "cell list list \<Rightarrow> bool \<Rightarrow> orientation \<Rightarrow> nat list \<Rightarrow> analysis" where
  "run_analysis rows hasHeaderRow ori selectedItems =
     (case handleAnalyze rows hasHeaderRow ori selectedItems of
        Inl r \<Rightarrow> Refused r
      | Inr vars \<Rightarrow>
          (case generateCorrelationMatrix vars of
             Inl e \<Rightarrow> Crashed e
           | Inr m \<Rightarrow> Shown m))"


section \<open>The vocabulary of the specification\<close>

subsection \<open>Valid pairs and the sums over them\<close>

text \<open>
  The specification of the coefficient speaks of the positions up to the length of
  the longer sequence at which both sides are present and finite, of their number
  \<open>k\<close> and of five sums accumulated over them in the order of the walk.
\<close>

definition valid_at :: "jsnum list \<Rightarrow> jsnum list \<Rightarrow> nat \<Rightarrow> bool" where
  "valid_at a b p = (p < length a \<and> p < length b \<and> isFinite (a ! p) \<and> isFinite (b ! p))"

definition valid_positions :: "jsnum list \<Rightarrow> jsnum list \<Rightarrow> nat list" where
  "valid_positions a b = filter (valid_at a b) [0..<max (length a) (length b)]"

definition pair_count :: "jsnum list \<Rightarrow> jsnum list \<Rightarrow> nat" where
  "pair_count a b = length (valid_positions a b)"

definition running_sum :: "(nat \<Rightarrow> jsnum) \<Rightarrow> nat list \<Rightarrow> jsnum \<Rightarrow> jsnum" where
  "running_sum t ps s0 = fold (\<lambda>p s. fadd s (t p)) ps s0"

definition sum_a :: "jsnum list \<Rightarrow> jsnum list \<Rightarrow> jsnum" where
  "sum_a a b = running_sum (\<lambda>p. a ! p) (valid_positions a b) (Num 0)"

definition sum_b :: "jsnum list \<Rightarrow> jsnum list \<Rightarrow> jsnum" where
  "sum_b a b = running_sum (\<lambda>p. b ! p) (valid_positions a b) (Num 0)"

definition sum_ab :: "jsnum list \<Rightarrow> jsnum list \<Rightarrow> jsnum" where
  "sum_ab a b = running_sum (\<lambda>p. fmul (a ! p) (b ! p)) (valid_positions a b) (Num 0)"

definition sum_aa :: "jsnum list \<Rightarrow> jsnum list \<Rightarrow> jsnum" where
  "sum_aa a b = running_sum (\<lambda>p. fmul (a ! p) (a ! p)) (valid_positions a b) (Num 0)"

definition sum_bb :: "jsnum list \<Rightarrow> jsnum list \<Rightarrow> jsnum" where
  "sum_bb a b = running_sum (\<lambda>p. fmul (b ! p) (b ! p)) (valid_positions a b) (Num 0)"

definition numerator_spec :: "jsnum list \<Rightarrow> jsnum list \<Rightarrow> jsnum" where
  "numerator_spec a b =
     fsub (fmul (Num (real (pair_count a b))) (sum_ab a b)) (fmul (sum_a a b) (sum_b a b))"

definition denominator_spec :: "jsnum list \<Rightarrow> jsnum list \<Rightarrow> jsnum" where
  "denominator_spec a b =
     fsqrt (fmul
       (fsub (fmul (Num (real (pair_count a b))) (sum_aa a b)) (fmul (sum_a a b) (sum_a a b)))
       (fsub (fmul (Num (real (pair_count a b))) (sum_bb a b)) (fmul (sum_b a b) (sum_b a b))))"

text \<open>The coefficient as the specification writes it, in the arithmetic of the program.\<close>

definition pearson_spec :: "jsnum list \<Rightarrow> jsnum list \<Rightarrow> jsnum option" where
  "pearson_spec a b =
     (if pair_count a b < 2 then None
      else if denominator_spec a b = Num 0 then Some (Num 0)
      else Some (fdiv (numerator_spec a b) (denominator_spec a b)))"

subsection \<open>The entry of the matrix at a position\<close>

definition corr_or_zero :: "VariableData list \<Rightarrow> nat \<Rightarrow> nat \<Rightarrow> jsnum" where
  "corr_or_zero data i j =
     (case calculatePearsonCorrelation (values (data ! i)) (values (data ! j)) of
        Some c \<Rightarrow> c | None \<Rightarrow> Num 0)"

definition target :: "VariableData list \<Rightarrow> nat \<Rightarrow> nat \<Rightarrow> jsnum" where
  "target data a b = (if a = b then Num 1 else corr_or_zero data (min a b) (max a b))"

text \<open>
  The invariant of the two loops: when the rows before \<open>i\<close> and the columns before
  \<open>k\<close> of row \<open>i\<close> are done, the grid is square, the cells written so far hold
  their entries and the others are still zero.
\<close>

definition written :: "nat \<Rightarrow> nat \<Rightarrow> nat \<Rightarrow> nat \<Rightarrow> bool" where
  "written i k a b = (min a b < i \<or> (min a b = i \<and> max a b < k))"

definition grid_inv :: "VariableData list \<Rightarrow> nat \<Rightarrow> nat \<Rightarrow> jsnum list list \<Rightarrow> bool" where
  "grid_inv data i k g =
     (length g = length data \<and> (\<forall>r < length data. length (g ! r) = length data) \<and>
      (\<forall>a < length data. \<forall>b < length data.
         g ! a ! b = (if written i k a b then target data a b else Num 0)))"


subsection \<open>String-like and number-like cells\<close>

text \<open>
  The specification of the header inference classifies a cell as string-like when
  it is textual and fails numeric coercion, as number-like when it is numeric, or
  textual and coercible; a missing cell is neither.
\<close>

definition stringLike :: "cell \<Rightarrow> bool" where
  "stringLike c = (case c of Str s \<Rightarrow> isNaN (coerceCell c) | _ \<Rightarrow> False)"

definition numberLike :: "cell \<Rightarrow> bool" where
  "numberLike c = (case c of Number n \<Rightarrow> True | Str s \<Rightarrow> \<not> isNaN (coerceCell c) | _ \<Rightarrow> False)"

definition string_like_count :: "cell list \<Rightarrow> nat" where
  "string_like_count row = length (filter stringLike row)"

definition number_like_count :: "cell list \<Rightarrow> nat" where
  "number_like_count row = length (filter numberLike row)"

definition header_present_spec :: "cell list list \<Rightarrow> bool" where
  "header_present_spec rows =
     (case rows of
        [] \<Rightarrow> False
      | row0 # rest \<Rightarrow> 0 < string_like_count row0 \<and> number_like_count row0 \<le> string_like_count row0)"

subsection \<open>The default selection in the words of the specification\<close>

text \<open>
  An index is selected when more than 30\% of its sampled cells have the counted
  property \<open>P\<close>: for a column the cells of the first 20 data rows, none sampled
  excluding it; for a row the cells after the first, a row of length at most 1
  being excluded. The specification counts the cells that coerce to a finite number.
\<close>

definition finiteCoercible :: "cell \<Rightarrow> bool" where
  "finiteCoercible c = isFinite (coerceCell c)"

definition exceeds_share :: "(cell \<Rightarrow> bool) \<Rightarrow> cell list \<Rightarrow> bool" where
  "exceeds_share P cells = (real (length (filter P cells)) > 3 / 10 * real (length cells))"

definition sampled_column :: "cell list list \<Rightarrow> nat \<Rightarrow> cell list" where
  "sampled_column dataRows colIdx = map (\<lambda>row. cellAt row colIdx) (take 20 dataRows)"

definition default_spec :: "(cell \<Rightarrow> bool) \<Rightarrow> label list \<Rightarrow> cell list list \<Rightarrow> orientation \<Rightarrow> nat list" where
  "default_spec P headers dataRows ori =
     (case ori of
        Columns \<Rightarrow>
          filter (\<lambda>colIdx. sampled_column dataRows colIdx \<noteq> [] \<and>
                            exceeds_share P (sampled_column dataRows colIdx))
            [0..<length headers]
      | Rows \<Rightarrow>
          filter (\<lambda>rowIdx. 1 < length (dataRows ! rowIdx) \<and>
                            exceeds_share P (drop 1 (dataRows ! rowIdx)))
            [0..<length dataRows])"

subsection \<open>The series of an index before the filter\<close>

definition candidate_values :: "cell list list \<Rightarrow> bool \<Rightarrow> orientation \<Rightarrow> nat \<Rightarrow> jsnum list option" where
  "candidate_values rows hasHeaderRow ori idx =
     (case ori of
        Columns \<Rightarrow> Some (column_values (dataRows_of rows hasHeaderRow) idx)
      | Rows \<Rightarrow> map_option row_values (index (dataRows_of rows hasHeaderRow) idx))"

definition survives :: "cell list list \<Rightarrow> bool \<Rightarrow> orientation \<Rightarrow> nat \<Rightarrow> bool" where
  "survives rows hasHeaderRow ori idx =
     (case candidate_values rows hasHeaderRow ori idx of
        None \<Rightarrow> False
      | Some vs \<Rightarrow> 2 \<le> validCountOf vs)"

definition finiteCountOf :: "jsnum list \<Rightarrow> nat" where
  "finiteCountOf vs = length (filter isFinite vs)"

subsection \<open>Sample tables\<close>

definition table_inf :: "cell list list" where
  "table_inf =
     [[Str ''price'', Str ''qty''],
      [Str ''Infinity'', Number (Num 1)],
      [Str ''Infinity'', Number (Num 2)]]"

definition table_abc :: "cell list list" where
  "table_abc =
     [[Number (Num 1), Number (Num 2), Number (Num 3)],
      [Number (Num 4), Number (Num 5), Number (Num 6)]]"

definition table_sales :: "cell list list" where
  "table_sales =
     [[Str ''Sales'', Str ''Visitors''],
      [Number (Num 10), Number (Num 1)],
      [Str ''abc'', Number (Num 2)],
      [Number (Num 30), Number (Num 3)]]"


section \<open>Rounding at a given number\<close>

text \<open>
  The three ways to find the double of a given real: it lies strictly within half
  a spacing of a multiple of the spacing of its binade, it lies halfway and the
  multiple is even, or it is such a multiple itself.
\<close>

lemma exponent_eq:
  assumes "2 powi e \<le> \<bar>r\<bar>" "\<bar>r\<bar> < 2 powi (e + 1)" "- 1022 \<le> e"
  shows "exponent r = e"
proof -
  have pos: "0 < \<bar>r\<bar>" using assms(1) by (smt (verit) zero_less_power_int)
  have "2 powr (of_int e) \<le> \<bar>r\<bar>" "\<bar>r\<bar> < 2 powr (of_int (e + 1))"
    using assms(1,2) by (simp_all only: powr_real_of_int' [of 2, simplified])
  then have "\<lfloor>log 2 \<bar>r\<bar>\<rfloor> = e"
    using pos by (simp add: floor_log_eq_powr_iff)
  with assms(3) show ?thesis by (simp add: exponent_def)
qed

lemma round_half_even_near:
  assumes "\<bar>q - of_int n\<bar> < 1 / 2"
  shows "round_half_even q = n"
proof -
  consider (lo) "of_int n \<le> q" | (hi) "q < of_int n" by linarith
  then show ?thesis
  proof cases
    case lo
    with assms have "\<lfloor>q\<rfloor> = n" by (intro floor_unique) linarith+
    with assms lo show ?thesis by (simp add: round_half_even_def Let_def)
  next
    case hi
    with assms have f: "\<lfloor>q\<rfloor> = n - 1" by (intro floor_unique) (simp, linarith+)
    with assms hi show ?thesis by (simp add: round_half_even_def Let_def)
  qed
qed

lemma round_half_even_tie_up:
  assumes "q = of_int n - 1 / 2" "even n"
  shows "round_half_even q = n"
proof -
  have f: "\<lfloor>q\<rfloor> = n - 1" using assms(1) by (intro floor_unique) simp_all
  with assms show ?thesis by (simp add: round_half_even_def Let_def)
qed

lemma round_half_even_tie_down:
  assumes "q = of_int n + 1 / 2" "even n"
  shows "round_half_even q = n"
proof -
  have f: "\<lfloor>q\<rfloor> = n" using assms(1) by (intro floor_unique) simp_all
  with assms show ?thesis by (simp add: round_half_even_def Let_def)
qed


lemma round64_finite:
  assumes e: "2 powi e \<le> \<bar>r\<bar>" "\<bar>r\<bar> < 2 powi (e + 1)" "- 1022 \<le> e" "e \<le> 1022"
    and n: "round_half_even (r / 2 powi (e - 52)) = n"
    and near: "\<bar>r / 2 powi (e - 52) - of_int n\<bar> \<le> 1 / 2"
  shows "round64 r = Num (of_int n * 2 powi (e - 52))"
proof -
  let ?u = "(2::real) powi (e - 52)"
  have ex: "exponent r = e" using e(1-3) by (rule exponent_eq)
  have r0: "r \<noteq> 0" using e(1) by (smt (verit) zero_less_power_int)
  have upos: "0 < ?u" by simp
  have "\<bar>r\<bar> / ?u < 2 powi (e + 1) / ?u" using e(2) upos by (simp add: divide_strict_right_mono)
  also have "2 powi (e + 1) / ?u = (2::real) powi 53"
    by (simp add: power_int_diff[symmetric])
  finally have q: "\<bar>r / ?u\<bar> < 2 ^ 53" by simp
  have "\<bar>real_of_int n\<bar> \<le> \<bar>r / ?u\<bar> + 1 / 2" using near by linarith
  with q have "\<bar>real_of_int n\<bar> < 2 ^ 53 + 1 / 2" by linarith
  then have "real_of_int \<bar>n\<bar> < real_of_int (2 ^ 53 + 1)" by simp
  then have "\<bar>n\<bar> < 2 ^ 53 + 1" by (simp only: of_int_less_iff)
  then have nle: "\<bar>n\<bar> \<le> 2 ^ 53" by linarith
  then have "real_of_int \<bar>n\<bar> \<le> real_of_int (2 ^ 53)" by (simp only: of_int_le_iff)
  then have "\<bar>real_of_int n\<bar> \<le> 2 ^ 53" by simp
  then have "\<bar>real_of_int n * ?u\<bar> \<le> 2 ^ 53 * ?u"
    using upos by (simp add: abs_mult mult_right_mono)
  also have "(2::real) ^ 53 * ?u = 2 powi (e + 1)"
    using power_int_add[of "2::real" 53 "e - 52"] by (simp add: algebra_simps)
  also have "(2::real) powi (e + 1) \<le> 2 powi 1023"
    using e(4) by (intro power_int_increasing) simp_all
  also have "\<dots> < (2::real) ^ 1024" by simp
  finally have "\<not> (2::real) ^ 1024 \<le> \<bar>real_of_int n * ?u\<bar>" by simp
  with ex r0 n show ?thesis by (simp add: round64_def ulp_def Let_def)
qed

lemma round64_I:
  assumes "2 powi e \<le> \<bar>r\<bar>" "\<bar>r\<bar> < 2 powi (e + 1)" "- 1022 \<le> e" "e \<le> 1022"
    and "v = of_int n * 2 powi (e - 52)"
    and "\<bar>r - v\<bar> < 2 powi (e - 53)"
  shows "round64 r = Num v"
proof -
  let ?u = "(2::real) powi (e - 52)"
  have upos: "0 < ?u" by simp
  have half: "(2::real) powi (e - 53) = ?u / 2"
    using power_int_diff[of "2::real" "e - 52" 1] by simp
  have "r / ?u - of_int n = (r - v) / ?u" using assms(5) upos by (simp add: field_simps)
  then have "\<bar>r / ?u - of_int n\<bar> = \<bar>r - v\<bar> / ?u" using upos by (simp add: abs_divide)
  also have "\<dots> < (?u / 2) / ?u" using assms(6) upos half by (simp add: divide_strict_right_mono)
  also have "\<dots> = 1 / 2" using upos by simp
  finally have near: "\<bar>r / ?u - of_int n\<bar> < 1 / 2" .
  then have "round_half_even (r / ?u) = n" by (rule round_half_even_near)
  with near assms show ?thesis using round64_finite[of e r n] by simp
qed

lemma round64_tie:
  assumes "2 powi e \<le> \<bar>r\<bar>" "\<bar>r\<bar> < 2 powi (e + 1)" "- 1022 \<le> e" "e \<le> 1022"
    and "v = of_int n * 2 powi (e - 52)" "even n"
    and "\<bar>r - v\<bar> = 2 powi (e - 53)"
  shows "round64 r = Num v"
proof -
  let ?u = "(2::real) powi (e - 52)"
  have upos: "0 < ?u" by simp
  have half: "(2::real) powi (e - 53) = ?u / 2"
    using power_int_diff[of "2::real" "e - 52" 1] by simp
  have d: "r / ?u - of_int n = (r - v) / ?u" using assms(5) upos by (simp add: field_simps)
  have "\<bar>r - v\<bar> / ?u = 1 / 2" using assms(7) half upos by simp
  then have a: "\<bar>r / ?u - of_int n\<bar> = 1 / 2" using d upos by (simp add: abs_divide)
  then consider "r / ?u = of_int n + 1 / 2" | "r / ?u = of_int n - 1 / 2" by linarith
  then have "round_half_even (r / ?u) = n"
    using assms(6) round_half_even_tie_down round_half_even_tie_up by cases blast+
  with a assms show ?thesis using round64_finite[of e r n] by simp
qed

lemma binade_exists:
  assumes "r \<noteq> 0"
  shows "2 powi \<lfloor>log 2 \<bar>r\<bar>\<rfloor> \<le> \<bar>r\<bar> \<and> \<bar>r\<bar> < 2 powi (\<lfloor>log 2 \<bar>r\<bar>\<rfloor> + 1)"
proof -
  have pos: "0 < \<bar>r\<bar>" using assms by simp
  have "2 powr (of_int \<lfloor>log 2 \<bar>r\<bar>\<rfloor>) \<le> \<bar>r\<bar> \<and>
        \<bar>r\<bar> < 2 powr (of_int (\<lfloor>log 2 \<bar>r\<bar>\<rfloor> + 1))"
    using floor_log_eq_powr_iff[of "\<bar>r\<bar>" 2 "\<lfloor>log 2 \<bar>r\<bar>\<rfloor>"] pos by simp
  then show ?thesis by (simp only: powr_real_of_int' [of 2, simplified])
qed

lemma round64_exact:
  assumes "2 powi e \<le> \<bar>r\<bar>" "\<bar>r\<bar> < 2 powi (e + 1)" "- 1022 \<le> e" "e \<le> 1022"
    and "r = of_int m * 2 powi k" "e - 52 \<le> k"
  shows "round64 r = Num r"
proof (rule round64_I[where e = e and n = "m * 2 ^ nat (k - (e - 52))"])
  have "(2::real) powi k = 2 powi (k - (e - 52)) * 2 powi (e - 52)"
    using power_int_add[of "2::real" "k - (e - 52)" "e - 52"] by simp
  also have "(2::real) powi (k - (e - 52)) = 2 ^ nat (k - (e - 52))"
    using assms(6) by (simp add: power_int_def)
  finally show "r = real_of_int (m * 2 ^ nat (k - (e - 52))) * 2 powi (e - 52)"
    using assms(5) by simp
  show "\<bar>r - r\<bar> < 2 powi (e - 53)" by simp
qed (use assms in simp_all)

lemma round64_int:
  assumes "\<bar>n\<bar> \<le> 2 ^ 53"
  shows "round64 (of_int n) = Num (of_int n)"
proof (cases "n = 0")
  case True
  then show ?thesis by (simp add: round64_def)
next
  case False
  define r where "r = real_of_int n"
  define e where "e = \<lfloor>log 2 \<bar>r\<bar>\<rfloor>"
  have r0: "r \<noteq> 0" using False by (simp add: r_def)
  have b: "2 powi e \<le> \<bar>r\<bar>" "\<bar>r\<bar> < 2 powi (e + 1)"
    using binade_exists[OF r0] by (simp_all add: e_def)
  have one: "1 \<le> \<bar>r\<bar>" using False by (simp add: r_def)
  have e0: "0 \<le> e"
  proof (rule ccontr)
    assume "\<not> 0 \<le> e"
    then have "e + 1 \<le> 0" by simp
    then have "(2::real) powi (e + 1) \<le> 2 powi 0" by (intro power_int_increasing) simp_all
    with b(2) one show False by simp
  qed
  have top: "\<bar>r\<bar> \<le> 2 ^ 53"
  proof -
    have "real_of_int \<bar>n\<bar> \<le> real_of_int (2 ^ 53)" using assms by (simp only: of_int_le_iff)
    then show ?thesis by (simp add: r_def)
  qed
  have e53: "e \<le> 53"
  proof (rule ccontr)
    assume "\<not> e \<le> 53"
    then have "54 \<le> e" by simp
    then have "(2::real) powi 54 \<le> 2 powi e" by (intro power_int_increasing) simp_all
    with b(1) top show False by simp
  qed
  show ?thesis
  proof (cases "e \<le> 52")
    case True
    have "round64 r = Num r"
      by (rule round64_exact[where e = e and m = n and k = 0])
         (use b e0 True in \<open>simp_all add: r_def\<close>)
    then show ?thesis by (simp add: r_def)
  next
    case False
    with e53 have e: "e = 53" by simp
    with b(1) top have "\<bar>r\<bar> = 2 ^ 53" by simp
    then consider "r = 2 ^ 53" | "r = - (2 ^ 53)" by linarith
    then have "round64 r = Num r"
    proof cases
      case 1
      show ?thesis
        by (rule round64_exact[where e = 53 and m = 1 and k = 53]) (simp_all add: 1)
    next
      case 2
      show ?thesis
        by (rule round64_exact[where e = 53 and m = "- 1" and k = 53]) (simp_all add: 2)
    qed
    then show ?thesis by (simp add: r_def)
  qed
qed

lemma round64_numeral:
  "(numeral k :: int) \<le> 9007199254740992 \<Longrightarrow> round64 (numeral k) = Num (numeral k)"
  using round64_int[of "numeral k"] by simp

lemma round64_neg_numeral:
  "(numeral k :: int) \<le> 9007199254740992 \<Longrightarrow> round64 (- numeral k) = Num (- numeral k)"
  using round64_int[of "- numeral k"] by simp

lemma round64_0: "round64 0 = Num 0"
  by (simp add: round64_def)

lemma round64_1: "round64 1 = Num 1"
  using round64_int[of 1] by simp

lemma round64_m1: "round64 (- 1) = Num (- 1)"
  using round64_int[of "- 1"] by simp

text \<open>A magnitude of \<open>2 ^ 1024\<close> or more rounds to the infinity of its sign.\<close>

lemma round_half_even_mono_le:
  assumes "q \<le> of_int n" shows "round_half_even q \<le> n"
proof -
  have f: "\<lfloor>q\<rfloor> \<le> n" using assms by (simp add: floor_le_iff)
  show ?thesis
  proof (cases "\<lfloor>q\<rfloor> = n")
    case True
    then have "q = of_int n" using assms by linarith
    then show ?thesis by (simp add: round_half_even_def Let_def)
  next
    case False
    with f have "\<lfloor>q\<rfloor> + 1 \<le> n" by simp
    then show ?thesis by (simp add: round_half_even_def Let_def)
  qed
qed

lemma round_half_even_mono_ge:
  assumes "of_int n \<le> q" shows "n \<le> round_half_even q"
proof -
  have "n \<le> \<lfloor>q\<rfloor>" using assms by (simp add: le_floor_iff)
  then show ?thesis by (simp add: round_half_even_def Let_def)
qed

lemma round64_overflow:
  assumes "2 ^ 1024 \<le> \<bar>r\<bar>"
  shows "round64 r = (if 0 < r then PosInf else NegInf)"
proof -
  define e where "e = \<lfloor>log 2 \<bar>r\<bar>\<rfloor>"
  let ?u = "(2::real) powi (e - 52)"
  have r0: "r \<noteq> 0" using assms by auto
  have b: "2 powi e \<le> \<bar>r\<bar>" "\<bar>r\<bar> < 2 powi (e + 1)"
    using binade_exists[OF r0] by (simp_all add: e_def)
  have e1024: "1024 \<le> e"
  proof (rule ccontr)
    assume "\<not> 1024 \<le> e"
    then have "e + 1 \<le> 1024" by simp
    then have "(2::real) powi (e + 1) \<le> 2 powi 1024" by (intro power_int_increasing) simp_all
    with b(2) assms show False by simp
  qed
  have ex: "exponent r = e" using e1024 by (simp add: exponent_def e_def)
  have upos: "0 < ?u" by simp
  have split: "(2::real) ^ 52 * ?u = 2 powi e"
    using power_int_add[of "2::real" 52 "e - 52"] by (simp add: algebra_simps)
  have big: "(2::real) ^ 1024 \<le> 2 powi e"
    using power_int_increasing[of 1024 e "2::real"] e1024 by simp
  have "2 ^ 52 \<le> \<bar>round_half_even (r / ?u)\<bar>"
  proof (cases "0 < r")
    case True
    then have "2 powi e \<le> r" using b(1) by simp
    then have "2 ^ 52 * ?u \<le> r" using split by simp
    then have "real_of_int (2 ^ 52) \<le> r / ?u" using upos by (simp add: pos_le_divide_eq)
    then have "2 ^ 52 \<le> round_half_even (r / ?u)" by (rule round_half_even_mono_ge)
    then show ?thesis by simp
  next
    case False
    then have "r \<le> - (2 powi e)" using b(1) by simp
    then have "r \<le> - (2 ^ 52) * ?u" using split by simp
    then have "r / ?u \<le> real_of_int (- (2 ^ 52))" using upos by (simp add: pos_divide_le_eq)
    then have "round_half_even (r / ?u) \<le> - (2 ^ 52)" by (rule round_half_even_mono_le)
    then show ?thesis by simp
  qed
  then have "real_of_int (2 ^ 52) \<le> real_of_int \<bar>round_half_even (r / ?u)\<bar>"
    by (simp only: of_int_le_iff)
  then have "2 ^ 52 \<le> \<bar>real_of_int (round_half_even (r / ?u))\<bar>" by simp
  then have "2 ^ 52 * ?u \<le> \<bar>real_of_int (round_half_even (r / ?u))\<bar> * ?u"
    using upos by (intro mult_right_mono) simp_all
  also have "\<dots> = \<bar>real_of_int (round_half_even (r / ?u)) * ?u\<bar>"
    using upos by (simp add: abs_mult)
  finally have "2 powi e \<le> \<bar>real_of_int (round_half_even (r / ?u)) * ?u\<bar>"
    by (simp only: split)
  with big have "2 ^ 1024 \<le> \<bar>real_of_int (round_half_even (r / ?u)) * ?u\<bar>"
    by (rule order_trans)
  with ex r0 show ?thesis by (simp add: round64_def ulp_def Let_def)
qed


section \<open>The coefficient\<close>

subsection \<open>The loop computes the sums over the valid pairs\<close>

lemma pearson_step_valid:
  "pearson_step x y p s = (if valid_at x y p then accumulate (x ! p) (y ! p) s else s)"
  by (simp add: pearson_step_def valid_at_def index_def)

lemma fold_pearson_step:
  "fold (pearson_step x y) ps s =
     \<lparr>sumX = running_sum (\<lambda>p. x ! p) (filter (valid_at x y) ps) (sumX s),
      sumY = running_sum (\<lambda>p. y ! p) (filter (valid_at x y) ps) (sumY s),
      sumXY = running_sum (\<lambda>p. fmul (x ! p) (y ! p)) (filter (valid_at x y) ps) (sumXY s),
      sumXSq = running_sum (\<lambda>p. fmul (x ! p) (x ! p)) (filter (valid_at x y) ps) (sumXSq s),
      sumYSq = running_sum (\<lambda>p. fmul (y ! p) (y ! p)) (filter (valid_at x y) ps) (sumYSq s),
      validCount = validCount s + length (filter (valid_at x y) ps)\<rparr>"
  by (induction ps arbitrary: s)
     (simp_all add: pearson_step_valid accumulate_def running_sum_def)

lemma loop_sums:
  "fold (pearson_step x y) [0..<max (length x) (length y)] init_sums =
     \<lparr>sumX = sum_a x y, sumY = sum_b x y, sumXY = sum_ab x y,
      sumXSq = sum_aa x y, sumYSq = sum_bb x y, validCount = pair_count x y\<rparr>"
  by (simp add: fold_pearson_step init_sums_def sum_a_def sum_b_def sum_ab_def sum_aa_def
      sum_bb_def pair_count_def valid_positions_def)

lemma pearson_eq_spec: "calculatePearsonCorrelation a b = pearson_spec a b"
  by (simp add: calculatePearsonCorrelation_def loop_sums pearson_spec_def numerator_spec_def
      denominator_spec_def Let_def)


lemma zero_denominator_gives_zero:
  assumes "2 \<le> pair_count a b" "denominator_spec a b = Num 0"
  shows "calculatePearsonCorrelation a b = Some (Num 0)"
  using assms by (simp add: pearson_eq_spec pearson_spec_def)

lemma few_pairs_give_null:
  assumes "pair_count a b < 2"
  shows "calculatePearsonCorrelation a b = None"
  using assms by (simp add: pearson_eq_spec pearson_spec_def)

subsection \<open>A constant series\<close>

text \<open>
  The series \<open>[100000001, 100000001, 100000001]\<close> against \<open>[1, 2, 3]\<close>. The square
  \<open>10000000200000001\<close> lies halfway between two doubles and rounds to
  \<open>10000000200000000\<close>; three times the sum of the squares is then
  \<open>90000001800000000\<close>, while the square of the sum, \<open>90000001800000009\<close>, rounds
  to \<open>90000001800000016\<close>.
\<close>

lemma round_square: "round64 10000000200000001 = Num 10000000200000000"
  by (rule round64_tie[where e = 53 and n = 5000000100000000]) simp_all

lemma round_sq1: "round64 10000000200000000 = Num 10000000200000000"
  by (rule round64_exact[where e = 53 and m = 5000000100000000 and k = 1]) simp_all

lemma round_sq2: "round64 20000000400000000 = Num 20000000400000000"
  by (rule round64_exact[where e = 54 and m = 5000000100000000 and k = 2]) simp_all

lemma round_sq3: "round64 30000000600000000 = Num 30000000600000000"
  by (rule round64_exact[where e = 54 and m = 7500000150000000 and k = 2]) simp_all

lemma round_sq9: "round64 90000001800000000 = Num 90000001800000000"
  by (rule round64_exact[where e = 56 and m = 5625000112500000 and k = 4]) simp_all

lemma round_sum_sq: "round64 90000001800000009 = Num 90000001800000016"
  by (rule round64_I[where e = 56 and n = 5625000112500001]) simp_all
lemmas eval_double = round64_numeral round64_neg_numeral round64_0 round64_1 round64_m1
  round_square round_sq1 round_sq2 round_sq3 round_sq9 round_sum_sq

lemmas eval_pearson = calculatePearsonCorrelation_def pearson_step_def index_def init_sums_def
  accumulate_def fsub_def upt_conv_Cons Let_def

text \<open>
  Claim C3. The code returns 0 when the denominator it has computed is exactly
  zero, and the comment on that line reads "No correlation if no variance"; but
  the variance of a constant series does not come out as zero. For the series
  above the first factor of the radicand is \<open>-16\<close>, the radicand \<open>-96\<close>, its
  square root \<^verbatim>\<open>NaN\<close>, the test \<^verbatim>\<open>denominator === 0\<close> fails and the function
  returns \<^verbatim>\<open>NaN\<close>, with three valid pairs.
\<close>

theorem constant_series_nan:
  "calculatePearsonCorrelation [Num 100000001, Num 100000001, Num 100000001]
     [Num 1, Num 2, Num 3] = Some NaN"
  by (simp add: eval_pearson eval_double)

subsection \<open>Products that overflow\<close>

text \<open>
  The same result comes from large values: for \<open>[2 ^ 600, 2 * 2 ^ 600]\<close> against
  \<open>[2 ^ 600, 3 * 2 ^ 600]\<close> every product is \<^verbatim>\<open>Infinity\<close>, so the numerator and
  both factors of the radicand are \<^verbatim>\<open>Infinity - Infinity\<close>.
\<close>

lemma overflow_gives_nan:
  "calculatePearsonCorrelation [Num (2 ^ 600), Num (2 * 2 ^ 600)] [Num (2 ^ 600), Num (3 * 2 ^ 600)]
     = Some NaN"
proof -
  have f1: "round64 (2 ^ 600) = Num (2 ^ 600)"
    by (rule round64_exact[where e = 600 and m = 1 and k = 600]) simp_all
  have f3: "round64 (3 * 2 ^ 600) = Num (3 * 2 ^ 600)"
    by (rule round64_exact[where e = 601 and m = 3 and k = 600]) simp_all
  have f4: "round64 (4 * 2 ^ 600) = Num (4 * 2 ^ 600)"
    by (rule round64_exact[where e = 602 and m = 1 and k = 602]) simp_all
  from f1 f3 f4 show ?thesis
    by (simp add: eval_pearson round64_overflow signed_inf_def)
qed


section \<open>The matrix\<close>

subsection \<open>A rule for the loops\<close>

lemma for_loop_rule:
  assumes "a \<le> b" and "I a s"
    and step: "\<And>k t. a \<le> k \<Longrightarrow> k < b \<Longrightarrow> I k t \<Longrightarrow> \<exists>t'. body k t = Inr t' \<and> I (Suc k) t'"
  shows "\<exists>t. for_loop [a..<b] body s = Inr t \<and> I b t"
  using assms
proof (induction "b - a" arbitrary: a s)
  case 0
  then show ?case by simp
next
  case (Suc d)
  then have ab: "a < b" by simp
  from Suc.prems(3)[of a s] ab Suc.prems(2)
  obtain t' where t': "body a s = Inr t'" "I (Suc a) t'" by auto
  have "\<exists>t. for_loop [Suc a..<b] body t' = Inr t \<and> I b t"
  proof (rule Suc.hyps(1))
    show "d = b - Suc a" using Suc.hyps(2) by simp
    show "Suc a \<le> b" using ab by simp
    show "I (Suc a) t'" by (rule t')
    show "\<And>k t. Suc a \<le> k \<Longrightarrow> k < b \<Longrightarrow> I k t \<Longrightarrow> \<exists>t'. body k t = Inr t' \<and> I (Suc k) t'"
      using Suc.prems(3) by simp
  qed
  then show ?case using ab t' by (simp add: upt_conv_Cons)
qed

lemma set_cell_ok:
  assumes "i < length g" "j < length (g ! i)"
  shows "set_cell i j v g = Inr (g[i := (g ! i)[j := v]])"
  using assms by (simp add: set_cell_def)

lemma cell_step_inv:
  assumes "grid_inv data i k g" "i < length data" "k < length data"
  shows "\<exists>g'. cell_step data i k g = Inr g' \<and> grid_inv data i (Suc k) g'"
proof -
  let ?n = "length data"
  from assms have len: "length g = ?n" and rows: "\<And>r. r < ?n \<Longrightarrow> length (g ! r) = ?n"
    and cells: "\<And>a b. a < ?n \<Longrightarrow> b < ?n \<Longrightarrow>
        g ! a ! b = (if written i k a b then target data a b else Num 0)"
    by (auto simp: grid_inv_def)
  consider (diag) "i = k" | (upper) "i < k" | (lower) "k < i" by linarith
  then show ?thesis
  proof cases
    case diag
    have "cell_step data i k g = Inr (g[i := (g ! i)[i := Num 1]])"
      using diag assms(2) len rows by (simp add: cell_step_def set_cell_ok)
    moreover have "grid_inv data i (Suc k) (g[i := (g ! i)[i := Num 1]])"
      unfolding grid_inv_def using diag assms(2) len rows cells
      by (auto simp: nth_list_update written_def target_def)
    ultimately show ?thesis by blast
  next
    case upper
    let ?v = "corr_or_zero data i k"
    let ?g1 = "g[i := (g ! i)[k := ?v]]"
    let ?g2 = "?g1[k := (?g1 ! k)[i := ?v]]"
    have "cell_step data i k g = Inr ?g2"
      using upper assms(2,3) len rows
      by (simp add: cell_step_def set_cell_ok index_def corr_or_zero_def Let_def)
    moreover have "grid_inv data i (Suc k) ?g2"
      unfolding grid_inv_def using upper assms(2,3) len rows cells
      by (auto simp: nth_list_update written_def target_def min_def max_def)
    ultimately show ?thesis by blast
  next
    case lower
    have "cell_step data i k g = Inr g" using lower by (simp add: cell_step_def)
    moreover have "grid_inv data i (Suc k) g"
      unfolding grid_inv_def using lower len rows cells
      by (auto simp: written_def)
    ultimately show ?thesis by blast
  qed
qed


lemma written_row_done: "a < n \<Longrightarrow> b < n \<Longrightarrow> written i n a b = written (Suc i) 0 a b"
  by (auto simp: written_def min_def max_def)

lemma row_loop_inv:
  assumes "grid_inv data i 0 g" "i < length data"
  shows "\<exists>g'. for_loop [0..<length data] (\<lambda>j. cell_step data i j) g = Inr g'
              \<and> grid_inv data (Suc i) 0 g'"
proof -
  have "\<exists>g'. for_loop [0..<length data] (\<lambda>j. cell_step data i j) g = Inr g'
              \<and> grid_inv data i (length data) g'"
    by (rule for_loop_rule[where I = "grid_inv data i"])
       (use assms in \<open>auto intro: cell_step_inv\<close>)
  moreover have "grid_inv data i (length data) g' \<Longrightarrow> grid_inv data (Suc i) 0 g'" for g'
    unfolding grid_inv_def by (simp add: written_row_done)
  ultimately show ?thesis by blast
qed

lemma grid_loops:
  "\<exists>g. for_loop [0..<length data]
          (\<lambda>i. for_loop [0..<length data] (\<lambda>j. cell_step data i j))
          (replicate (length data) (replicate (length data) (Num 0))) = Inr g
       \<and> grid_inv data (length data) 0 g"
proof (rule for_loop_rule[where I = "\<lambda>i. grid_inv data i 0"])
  show "0 \<le> length data" by simp
  show "grid_inv data 0 0 (replicate (length data) (replicate (length data) (Num 0)))"
    by (simp add: grid_inv_def written_def)
  show "\<And>k t. 0 \<le> k \<Longrightarrow> k < length data \<Longrightarrow> grid_inv data k 0 t \<Longrightarrow>
          \<exists>t'. for_loop [0..<length data] (\<lambda>j. cell_step data k j) t = Inr t' \<and> grid_inv data (Suc k) 0 t'"
    by (rule row_loop_inv)
qed

lemma generate_grid:
  "\<exists>g. generateCorrelationMatrix data = Inr \<lparr>variables = map name data, grid = g\<rparr> \<and>
       length g = length data \<and>
       (\<forall>r < length data. length (g ! r) = length data) \<and>
       (\<forall>a < length data. \<forall>b < length data. g ! a ! b = target data a b)"
proof -
  from grid_loops[of data] obtain g where
    g: "for_loop [0..<length data]
          (\<lambda>i. for_loop [0..<length data] (\<lambda>j. cell_step data i j))
          (replicate (length data) (replicate (length data) (Num 0))) = Inr g"
    and inv: "grid_inv data (length data) 0 g" by blast
  from g have "generateCorrelationMatrix data = Inr \<lparr>variables = map name data, grid = g\<rparr>"
    by (simp add: generateCorrelationMatrix_def)
  moreover from inv have "length g = length data"
    "\<forall>r < length data. length (g ! r) = length data"
    "\<forall>a < length data. \<forall>b < length data. g ! a ! b = target data a b"
    by (auto simp: grid_inv_def written_def)
  ultimately show ?thesis by blast
qed

text \<open>
  Claim C1. For every list of series the function returns a matrix whose variables
  are the names in input order and whose grid is square; every diagonal entry is
  the constant 1, the grid is symmetric, and for \<open>i < j\<close> the entry at \<open>(i, j)\<close> is
  the coefficient of series \<open>i\<close> and \<open>j\<close>, or 0 when that is \<^verbatim>\<open>null\<close>, and the
  entry at \<open>(j, i)\<close> is the same value.
\<close>

theorem matrix_diagonal_symmetric:
  "\<exists>m. generateCorrelationMatrix data = Inr m \<and>
       variables m = map name data \<and>
       length (grid m) = length data \<and>
       (\<forall>i < length data. length (grid m ! i) = length data \<and> grid m ! i ! i = Num 1) \<and>
       (\<forall>i < length data. \<forall>j < length data. grid m ! i ! j = grid m ! j ! i) \<and>
       (\<forall>i j. i < j \<and> j < length data \<longrightarrow>
          grid m ! i ! j =
            (case calculatePearsonCorrelation (values (data ! i)) (values (data ! j)) of
               Some c \<Rightarrow> c | None \<Rightarrow> Num 0) \<and>
          grid m ! j ! i = grid m ! i ! j)"
proof -
  from generate_grid[of data] obtain g where
    m: "generateCorrelationMatrix data = Inr \<lparr>variables = map name data, grid = g\<rparr>"
    and len: "length g = length data"
    and rows: "\<forall>r < length data. length (g ! r) = length data"
    and cells: "\<forall>a < length data. \<forall>b < length data. g ! a ! b = target data a b" by blast
  have sym: "target data a b = target data b a" for a b
    by (simp add: target_def min.commute max.commute)
  have up: "i < j \<Longrightarrow> target data i j = corr_or_zero data i j" for i j
    by (simp add: target_def)
  show ?thesis
    apply (rule exI[of _ "\<lparr>variables = map name data, grid = g\<rparr>"])
    using m len rows cells sym up
    by (auto simp: target_def corr_or_zero_def)
qed

theorem matrix_diagonal_symmetric_witness:
  "generateCorrelationMatrix
     [\<lparr>name = Text ''x'', values = [Num 1, Num 2]\<rparr>,
      \<lparr>name = Text ''y'', values = [Num 4, Num 2]\<rparr>,
      \<lparr>name = Text ''z'', values = [Num 7]\<rparr>] =
   Inr \<lparr>variables = [Text ''x'', Text ''y'', Text ''z''],
        grid = [[Num 1, Num (- 1), Num 0], [Num (- 1), Num 1, Num 0], [Num 0, Num 0, Num 1]]\<rparr>"
proof -
  have p01: "calculatePearsonCorrelation [Num 1, Num 2] [Num 4, Num 2] = Some (Num (- 1))"
    by (simp add: eval_pearson eval_double)
  have p02: "calculatePearsonCorrelation [Num 1, Num 2] [Num 7] = None"
    by (simp add: eval_pearson eval_double)
  have p12: "calculatePearsonCorrelation [Num 4, Num 2] [Num 7] = None"
    by (simp add: eval_pearson eval_double)
  have ev: ?thesis
    by (simp add: generateCorrelationMatrix_def cell_step_def set_cell_def index_def
        p01 p02 p12 upt_conv_Cons Let_def)
  from matrix_diagonal_symmetric
      [of "[\<lparr>name = Text ''x'', values = [Num 1, Num 2]\<rparr>,
            \<lparr>name = Text ''y'', values = [Num 4, Num 2]\<rparr>,
            \<lparr>name = Text ''z'', values = [Num 7]\<rparr>]"] ev
  show ?thesis by blast
qed

text \<open>
  Claim C4. An entry of the grid off the diagonal is whatever the coefficient
  function returns, and that is not always a number between -1 and 1: for the
  constant series above it is \<^verbatim>\<open>NaN\<close>, and \<^verbatim>\<open>NaN\<close> is not \<^verbatim>\<open>null\<close>, so it
  is stored in both cells.
\<close>

theorem matrix_entry_nan:
  "generateCorrelationMatrix
     [\<lparr>name = Text ''x'', values = [Num 100000001, Num 100000001, Num 100000001]\<rparr>,
      \<lparr>name = Text ''y'', values = [Num 1, Num 2, Num 3]\<rparr>] =
   Inr \<lparr>variables = [Text ''x'', Text ''y''],
        grid = [[Num 1, NaN], [NaN, Num 1]]\<rparr>"
proof -
  have "calculatePearsonCorrelation [Num 100000001, Num 100000001, Num 100000001]
          [Num 1, Num 2, Num 3] = Some NaN"
    by (simp add: eval_pearson eval_double)
  then show ?thesis
    by (simp add: generateCorrelationMatrix_def cell_step_def set_cell_def index_def
        upt_conv_Cons Let_def)
qed


section \<open>Header inference\<close>

lemma isNaN_coerce_Str: "isNaN (coerceCell (Str s)) = isNaN (parseFloat s)"
  by (simp add: coerceCell_def Let_def)

lemma parseFloat_boolText: "parseFloat (boolText b) = NaN"
  by (cases b) (simp_all add: boolText_def parseFloat_def parseUnsigned_def isWhiteSpace_def isDigit_def Let_def)

lemma header_step_counts:
  "header_step c cnt =
     (fst cnt + (if stringLike c then 1 else 0), snd cnt + (if numberLike c then 1 else 0))"
  by (cases c) (simp_all add: header_step_def stringLike_def numberLike_def isNaN_coerce_Str parseFloat_boolText)

lemma fold_header_step:
  "fold header_step row cnt =
     (fst cnt + string_like_count row, snd cnt + number_like_count row)"
  by (induction row arbitrary: cnt)
     (simp_all add: header_step_counts string_like_count_def number_like_count_def)

lemma detectHeaderRow_spec: "detectHeaderRow rows = header_present_spec rows"
  by (cases rows) (simp_all add: detectHeaderRow_def header_present_spec_def fold_header_step Let_def)

lemma parse_examples:
  "parseFloat ''Revenue'' = NaN" "parseFloat ''Users'' = NaN" "parseFloat ''Region'' = NaN"
  "parseFloat ''A'' = NaN"
  by (simp_all add: parseFloat_def parseUnsigned_def isWhiteSpace_def isDigit_def Let_def)

text \<open>
  Claim C5. The header inference looks at row 0 only and answers true exactly when
  \<open>S > 0\<close> and \<open>S \<ge> N\<close>, for \<open>S\<close> the number of string-like and \<open>N\<close> the number of
  number-like cells of that row, missing cells counting for neither; a table with
  no row has no header. The three rows of the specification give true, false and
  false, the last with \<open>S = 1\<close> and \<open>N = 2\<close>.
\<close>

theorem header_inference:
  "detectHeaderRow rows =
     (case rows of
        [] \<Rightarrow> False
      | row0 # rest \<Rightarrow> 0 < string_like_count row0 \<and> number_like_count row0 \<le> string_like_count row0) \<and>
   detectHeaderRow (r # rs) = detectHeaderRow [r] \<and>
   detectHeaderRow [[Str ''Revenue'', Str ''Users'', Str ''Region'']] = True \<and>
   detectHeaderRow [[Number (Num 10), Number (Num 20), Number (Num 30)]] = False \<and>
   detectHeaderRow [[Str ''A'', Number (Num 5), Number (Num 10)]] = False \<and>
   string_like_count [Str ''A'', Number (Num 5), Number (Num 10)] = 1 \<and>
   number_like_count [Str ''A'', Number (Num 5), Number (Num 10)] = 2"
proof -
  have "detectHeaderRow rows = header_present_spec rows" by (rule detectHeaderRow_spec)
  moreover have "detectHeaderRow (r # rs) = detectHeaderRow [r]"
    by (simp add: detectHeaderRow_spec header_present_spec_def)
  moreover have "detectHeaderRow [[Str ''Revenue'', Str ''Users'', Str ''Region'']] = True"
    by (simp add: detectHeaderRow_def header_step_def parse_examples)
  moreover have "detectHeaderRow [[Number (Num 10), Number (Num 20), Number (Num 30)]] = False"
    by (simp add: detectHeaderRow_def header_step_def)
  moreover have "detectHeaderRow [[Str ''A'', Number (Num 5), Number (Num 10)]] = False"
    by (simp add: detectHeaderRow_def header_step_def parse_examples)
  moreover have "string_like_count [Str ''A'', Number (Num 5), Number (Num 10)] = 1"
    by (simp add: string_like_count_def stringLike_def isNaN_coerce_Str parse_examples)
  moreover have "number_like_count [Str ''A'', Number (Num 5), Number (Num 10)] = 2"
    by (simp add: number_like_count_def numberLike_def isNaN_coerce_Str parse_examples)
  ultimately show ?thesis by (simp add: header_present_spec_def)
qed


section \<open>The default selection\<close>

lemma fold_set_add_if:
  assumes "distinct is" "set is \<inter> set acc = {}"
  shows "fold (\<lambda>i sel. if P i then set_add i sel else sel) is acc = acc @ filter P is"
  using assms
proof (induction "is" arbitrary: acc)
  case Nil
  then show ?case by simp
next
  case (Cons i "is")
  then show ?case by (auto simp: set_add_def)
qed

lemma fold_set_add:
  assumes "distinct is" "set is \<inter> set acc = {}"
  shows "fold set_add is acc = acc @ is"
  using fold_set_add_if[OF assms, of "\<lambda>_. True"] by simp

lemma selectAll_upt:
  "selectAll headers dataRows ori =
     (case ori of Columns \<Rightarrow> [0..<length headers] | Rows \<Rightarrow> [0..<length dataRows])"
  by (cases ori) (simp_all add: selectAll_def fold_set_add)

lemma fold_count: "fold (\<lambda>x n. if P x then n + 1 else n) xs (k::nat) = k + length (filter P xs)"
  by (induction xs arbitrary: k) simp_all

lemma looksNumeric_numberLike: "looksNumeric c = numberLike c"
  by (cases c) (simp_all add: looksNumeric_def numberLike_def isNaN_coerce_Str)

lemma column_selected_spec:
  "column_selected dataRows colIdx =
     (sampled_column dataRows colIdx \<noteq> [] \<and> exceeds_share numberLike (sampled_column dataRows colIdx))"
proof -
  have "length (filter (\<lambda>row. numberLike (cellAt row colIdx)) (take 20 dataRows)) =
        length (filter numberLike (map (\<lambda>row. cellAt row colIdx) (take 20 dataRows)))"
    by (simp add: filter_map comp_def)
  then show ?thesis
    by (auto simp add: column_selected_def sampled_column_def exceeds_share_def fold_count
        looksNumeric_numberLike Let_def)
qed

lemma row_selected_spec:
  "row_selected row = (1 < length row \<and> exceeds_share numberLike (drop 1 row))"
  by (auto simp add: row_selected_def exceeds_share_def fold_count looksNumeric_numberLike Let_def
      of_nat_diff)

lemma column_selected_v1_eq: "column_selected_v1 dataRows colIdx = column_selected dataRows colIdx"
  by (auto simp: column_selected_v1_def column_selected_def Let_def fold_count)

text \<open>
  Claim C6, as amended. For every header list, data rows and orientation the default
  selection holds exactly the candidate indices more than 30\% of whose sampled
  cells are number-like (a number, or a string that \<^verbatim>\<open>parseFloat\<close> does not turn
  into \<^verbatim>\<open>NaN\<close>): for a column the cells of the first 20 data rows, a column with
  no sampled row being excluded; for a row its cells after the first, a row of
  length at most 1 being excluded. The indices are added in ascending order. The
  earlier revision's test for a column, which has no guard for the empty sample,
  decides the same.
\<close>

theorem default_selection_numeric:
  "defaultSelection headers dataRows ori = default_spec numberLike headers dataRows ori \<and>
   sorted (defaultSelection headers dataRows ori) \<and> distinct (defaultSelection headers dataRows ori) \<and>
   column_selected_v1 dataRows colIdx = column_selected dataRows colIdx"
proof -
  have eq: "defaultSelection headers dataRows ori = default_spec numberLike headers dataRows ori"
    by (cases ori)
       (simp_all add: defaultSelection_def default_spec_def fold_set_add_if
          column_selected_spec row_selected_spec)
  have "sorted (default_spec numberLike headers dataRows ori)"
    "distinct (default_spec numberLike headers dataRows ori)"
    by (cases ori; simp add: default_spec_def sorted_wrt_filter)+
  with eq show ?thesis by (simp add: column_selected_v1_eq)
qed

lemma parse_inf: "parseFloat ''Infinity'' = PosInf"
  by (simp add: parseFloat_def parseUnsigned_def isWhiteSpace_def isDigit_def)

text \<open>
  The claim as it is stated fails: the string \<^verbatim>\<open>"Infinity"\<close> parses to a number
  that is not \<^verbatim>\<open>NaN\<close> and not finite. In the table below column 0 has no cell
  that coerces to a finite number, and is selected.
\<close>

theorem default_selection_counterexample:
  "defaultSelection (headers_of table_inf True) (dataRows_of table_inf True) Columns = [0, 1] \<and>
   default_spec finiteCoercible (headers_of table_inf True) (dataRows_of table_inf True) Columns = [1]"
  by (simp add: defaultSelection_def default_spec_def column_selected_def sampled_column_def
      exceeds_share_def finiteCoercible_def headers_of_def dataRows_of_def table_inf_def
      cellAt_def index_def looksNumeric_def coerceCell_def parse_inf set_add_def Let_def
      String_or_def upt_conv_Cons)


section \<open>Series extraction\<close>

lemma fold_push:
  "fold (\<lambda>idx vars. case f idx of None \<Rightarrow> vars | Some v \<Rightarrow> vars @ [v]) sel acc =
     acc @ List.map_filter f sel"
  by (induction sel arbitrary: acc) (simp_all add: List.map_filter_simps split: option.splits)

lemma push_each_map_filter: "push_each f sel = List.map_filter f sel"
  by (simp add: push_each_def fold_push)

lemma handleAnalyze_unfold:
  "handleAnalyze rows h ori sel =
     (if length sel < 2 then Inl TooFewSelected
      else if length (List.map_filter (series_of rows h ori) sel) < 2 then Inl TooFewValid
      else Inr (List.map_filter (series_of rows h ori) sel))"
  by (simp add: handleAnalyze_def push_each_map_filter Let_def)

lemma series_of_None: "(series_of rows h ori i = None) = (\<not> survives rows h ori i)"
  by (cases ori)
     (auto simp: series_of_def survives_def candidate_values_def column_series_def row_series_def
        Let_def split: option.splits)

lemma series_of_Some:
  assumes "series_of rows h ori i = Some v"
  shows "candidate_values rows h ori i = Some (values v) \<and> 2 \<le> validCountOf (values v)"
  using assms
  by (cases ori)
     (auto simp: series_of_def candidate_values_def column_series_def row_series_def
        Let_def split: option.splits if_splits)

lemma map_filter_as_map:
  "map Some (List.map_filter f xs) = map f (filter (\<lambda>x. f x \<noteq> None) xs)"
  by (induction xs) (auto simp: List.map_filter_simps split: option.splits)

lemma survivors_in_order:
  "map Some (List.map_filter (series_of rows h ori) sel) =
     map (series_of rows h ori) (filter (survives rows h ori) sel)"
  by (simp add: map_filter_as_map series_of_None)

lemma length_survivors:
  "length (List.map_filter (series_of rows h ori) sel) = length (filter (survives rows h ori) sel)"
  using arg_cong[OF survivors_in_order[of rows h ori sel], of length] by simp

lemma survivor_origin:
  assumes "v \<in> set (List.map_filter (series_of rows h ori) sel)"
  shows "\<exists>i \<in> set sel. series_of rows h ori i = Some v"
  using assms by (auto simp: List.map_filter_def)

subsection \<open>Evaluating the component on a table\<close>

lemmas eval_analyze = handleAnalyze_unfold List.map_filter_simps series_of_def column_series_def
  column_values_def column_name_def headers_of_def dataRows_of_def cellAt_def index_def
  coerceCell_def validCountOf_def String_or_def Let_def

lemma parse_abc: "parseFloat ''abc'' = NaN"
  by (simp add: parseFloat_def parseUnsigned_def isWhiteSpace_def isDigit_def Let_def)

text \<open>
  Claim C7, as amended. Extraction drops every series with fewer than two values
  that are not \<^verbatim>\<open>NaN\<close> (an infinite value counts), and only the series that
  survive, in the order of the selection, reach the variables of the matrix. With
  fewer than two survivors among at least two selected indices the component
  refuses with the insufficient-data alert and builds no matrix.
\<close>

theorem extraction_filter:
  "handleAnalyze rows h ori sel =
     (if length sel < 2 then Inl TooFewSelected
      else if length (filter (survives rows h ori) sel) < 2 then Inl TooFewValid
      else Inr (List.map_filter (series_of rows h ori) sel)) \<and>
   map Some (List.map_filter (series_of rows h ori) sel) =
     map (series_of rows h ori) (filter (survives rows h ori) sel) \<and>
   (series_of rows h ori i = None) = (\<not> survives rows h ori i) \<and>
   (\<forall>vars. handleAnalyze rows h ori sel = Inr vars \<longrightarrow>
      2 \<le> length vars \<and>
      (\<forall>v \<in> set vars. 2 \<le> validCountOf (values v) \<and>
         (\<exists>i \<in> set sel. survives rows h ori i \<and> candidate_values rows h ori i = Some (values v))) \<and>
      (\<exists>m. run_analysis rows h ori sel = Shown m \<and> variables m = map name vars))"
proof (intro conjI allI impI)
  show "handleAnalyze rows h ori sel =
     (if length sel < 2 then Inl TooFewSelected
      else if length (filter (survives rows h ori) sel) < 2 then Inl TooFewValid
      else Inr (List.map_filter (series_of rows h ori) sel))"
    by (simp add: handleAnalyze_unfold length_survivors)
  show "map Some (List.map_filter (series_of rows h ori) sel) =
     map (series_of rows h ori) (filter (survives rows h ori) sel)"
    by (rule survivors_in_order)
  show "(series_of rows h ori i = None) = (\<not> survives rows h ori i)"
    by (rule series_of_None)
next
  fix vars assume a: "handleAnalyze rows h ori sel = Inr vars"
  then have vars: "vars = List.map_filter (series_of rows h ori) sel" and len: "2 \<le> length vars"
    by (auto simp: handleAnalyze_unfold split: if_splits)
  show "2 \<le> length vars" by (rule len)
  show "\<forall>v \<in> set vars. 2 \<le> validCountOf (values v) \<and>
         (\<exists>i \<in> set sel. survives rows h ori i \<and> candidate_values rows h ori i = Some (values v))"
  proof
    fix v assume "v \<in> set vars"
    with vars obtain i where i: "i \<in> set sel" "series_of rows h ori i = Some v"
      using survivor_origin by blast
    from i(2) have "survives rows h ori i" using series_of_None[of rows h ori i] by simp
    with i series_of_Some[OF i(2)]
    show "2 \<le> validCountOf (values v) \<and>
         (\<exists>i \<in> set sel. survives rows h ori i \<and> candidate_values rows h ori i = Some (values v))"
      by blast
  qed
  from generate_grid[of vars] obtain g where
    "generateCorrelationMatrix vars = Inr \<lparr>variables = map name vars, grid = g\<rparr>" by blast
  with a show "\<exists>m. run_analysis rows h ori sel = Shown m \<and> variables m = map name vars"
    by (simp add: run_analysis_def)
qed

theorem extraction_filter_witness:
  "handleAnalyze [[Number (Num 1), Str ''abc'', Number (Num 3)],
                  [Number (Num 2), Str ''abc'', Number (Num 5)]] False Columns [0, 1, 2] =
     Inr [\<lparr>name = ColLabel 0, values = [Num 1, Num 2]\<rparr>,
          \<lparr>name = ColLabel 2, values = [Num 3, Num 5]\<rparr>] \<and>
   handleAnalyze [[Number (Num 1), Str ''abc'', Number (Num 3)],
                  [Number (Num 2), Str ''abc'', Number (Num 5)]] False Columns [0, 1] =
     Inl TooFewValid"
proof -
  have ev: ?thesis by (simp add: eval_analyze parse_abc)
  from extraction_filter
    [of "[[Number (Num 1), Str ''abc'', Number (Num 3)],
          [Number (Num 2), Str ''abc'', Number (Num 5)]]" False Columns "[0, 1, 2]" 0] ev
  show ?thesis by blast
qed

text \<open>
  The claim as it is stated fails: the series of column 0 below has no finite value,
  survives the filter and stands in the variables of the matrix.
\<close>

theorem extraction_filter_counterexample:
  "handleAnalyze table_inf True Columns [0, 1] =
     Inr [\<lparr>name = Text ''price'', values = [PosInf, PosInf]\<rparr>,
          \<lparr>name = Text ''qty'', values = [Num 1, Num 2]\<rparr>] \<and>
   finiteCountOf [PosInf, PosInf] = 0 \<and>
   run_analysis table_inf True Columns [0, 1] =
     Shown \<lparr>variables = [Text ''price'', Text ''qty''],
            grid = [[Num 1, Num 0], [Num 0, Num 1]]\<rparr>"
proof -
  have ev: "handleAnalyze table_inf True Columns [0, 1] =
     Inr [\<lparr>name = Text ''price'', values = [PosInf, PosInf]\<rparr>,
          \<lparr>name = Text ''qty'', values = [Num 1, Num 2]\<rparr>]"
    by (simp add: eval_analyze table_inf_def parse_inf)
  have p: "calculatePearsonCorrelation [PosInf, PosInf] [Num 1, Num 2] = None"
    by (simp add: calculatePearsonCorrelation_def pearson_step_def index_def init_sums_def
        upt_conv_Cons)
  have "generateCorrelationMatrix
          [\<lparr>name = Text ''price'', values = [PosInf, PosInf]\<rparr>,
           \<lparr>name = Text ''qty'', values = [Num 1, Num 2]\<rparr>] =
        Inr \<lparr>variables = [Text ''price'', Text ''qty''],
             grid = [[Num 1, Num 0], [Num 0, Num 1]]\<rparr>"
    by (simp add: generateCorrelationMatrix_def cell_step_def set_cell_def index_def p
        upt_conv_Cons Let_def)
  with ev show ?thesis by (simp add: run_analysis_def finiteCountOf_def)
qed

text \<open>
  Claim C8, as amended. The extracted series follow the order in which the indices
  were inserted into the selection: the series are those of the surviving indices
  in the iteration order of the set. That order is ascending after select-all and
  for the default selection.
\<close>

theorem extraction_order:
  "(\<forall>vars. handleAnalyze rows h ori sel = Inr vars \<longrightarrow>
      map Some vars = map (series_of rows h ori) (filter (survives rows h ori) sel)) \<and>
   selectAll headers dataRows ori =
     (case ori of Columns \<Rightarrow> [0..<length headers] | Rows \<Rightarrow> [0..<length dataRows]) \<and>
   sorted (selectAll headers dataRows ori) \<and>
   sorted (defaultSelection headers dataRows ori)"
proof -
  have "\<forall>vars. handleAnalyze rows h ori sel = Inr vars \<longrightarrow>
      map Some vars = map (series_of rows h ori) (filter (survives rows h ori) sel)"
    by (auto simp: handleAnalyze_unfold survivors_in_order split: if_splits)
  moreover have "sorted (selectAll headers dataRows ori)"
    by (cases ori) (simp_all add: selectAll_upt)
  moreover have "sorted (defaultSelection headers dataRows ori)"
    by (cases ori)
       (simp_all add: defaultSelection_def fold_set_add_if sorted_wrt_filter)
  ultimately show ?thesis by (simp add: selectAll_upt)
qed

theorem extraction_order_witness:
  "handleAnalyze table_abc False Columns [1, 2, 0] =
     Inr [\<lparr>name = ColLabel 1, values = [Num 2, Num 5]\<rparr>,
          \<lparr>name = ColLabel 2, values = [Num 3, Num 6]\<rparr>,
          \<lparr>name = ColLabel 0, values = [Num 1, Num 4]\<rparr>] \<and>
   filter (survives table_abc False Columns) [1, 2, 0] = [1, 2, 0]"
proof -
  have ev: ?thesis by (simp add: eval_analyze table_abc_def survives_def candidate_values_def)
  from extraction_order[of table_abc False Columns "[1, 2, 0]" "[]" "[]"] ev
  show ?thesis by blast
qed

text \<open>
  The claim as it is stated fails: switching column 0 off and on again moves it to
  the end of the selection, and its series to the end of the result.
\<close>

theorem extraction_order_counterexample:
  "toggleItem 0 (toggleItem 0
     (selectAll (headers_of table_abc False) (dataRows_of table_abc False) Columns)) = [1, 2, 0] \<and>
   handleAnalyze table_abc False Columns [1, 2, 0] =
     Inr [\<lparr>name = ColLabel 1, values = [Num 2, Num 5]\<rparr>,
          \<lparr>name = ColLabel 2, values = [Num 3, Num 6]\<rparr>,
          \<lparr>name = ColLabel 0, values = [Num 1, Num 4]\<rparr>] \<and>
   handleAnalyze table_abc False Columns (sort [1, 2, 0]) =
     Inr [\<lparr>name = ColLabel 0, values = [Num 1, Num 4]\<rparr>,
          \<lparr>name = ColLabel 1, values = [Num 2, Num 5]\<rparr>,
          \<lparr>name = ColLabel 2, values = [Num 3, Num 6]\<rparr>]"
  by (simp add: eval_analyze table_abc_def selectAll_upt toggleItem_def set_add_def set_delete_def
      upt_conv_Cons)

lemma coerce_fails: "\<not> numberLike c \<Longrightarrow> coerceCell c = NaN"
  by (cases c) (auto simp: numberLike_def coerceCell_def Let_def)

lemma parse_names: "parseFloat ''Sales'' = NaN" "parseFloat ''Visitors'' = NaN"
  by (simp_all add: parseFloat_def parseUnsigned_def isWhiteSpace_def isDigit_def Let_def)

lemma dataRows_drop: "dataRows_of rows h = drop (if h then 1 else 0) rows"
  by (cases rows) (simp_all add: dataRows_of_def)

text \<open>
  Claim C9. By column, every extracted series has one value per row of the table
  after the header row: its length is the number of rows, less one when the
  first row is the header, its value at a position is the coerced cell of the
  row at that position past the header, at the series' column, and that value is
  \<^verbatim>\<open>NaN\<close> wherever the cell fails numeric coercion. So all series of one
  extraction have the same length: a column \<open>[10, "abc", 30]\<close> under a header
  gives a series of length 3 with \<^verbatim>\<open>NaN\<close> at position 1.
\<close>

theorem column_series_aligned:
  assumes "handleAnalyze rows h Columns sel = Inr vars"
  shows "\<forall>v \<in> set vars.
           length (values v) = length rows - (if h then 1 else 0) \<and>
           (\<forall>w \<in> set vars. length (values w) = length (values v)) \<and>
           (\<exists>c \<in> set sel. \<forall>r < length (values v).
              values v ! r = coerceCell (cellAt (rows ! (r + (if h then 1 else 0))) c) \<and>
              (\<not> numberLike (cellAt (rows ! (r + (if h then 1 else 0))) c) \<longrightarrow>
                 values v ! r = NaN))"
proof -
  let ?k = "if h then 1 else 0 :: nat"
  have origin: "\<exists>c \<in> set sel. values v = column_values (drop ?k rows) c" if "v \<in> set vars" for v
  proof -
    from that assms obtain c where c: "c \<in> set sel" "series_of rows h Columns c = Some v"
      using survivor_origin[of v rows h Columns sel]
      by (auto simp: handleAnalyze_unfold split: if_splits)
    from series_of_Some[OF c(2)] have "values v = column_values (drop ?k rows) c"
      by (simp add: candidate_values_def dataRows_drop)
    with c(1) show ?thesis by blast
  qed
  have len: "length (values v) = length rows - ?k" if "v \<in> set vars" for v
    using origin[OF that] by (auto simp: column_values_def)
  show ?thesis
  proof
    fix v assume v: "v \<in> set vars"
    from origin[OF v] obtain c where c: "c \<in> set sel"
      and vals: "values v = column_values (drop ?k rows) c" by blast
    have "\<forall>r < length (values v).
            values v ! r = coerceCell (cellAt (rows ! (r + ?k)) c) \<and>
            (\<not> numberLike (cellAt (rows ! (r + ?k)) c) \<longrightarrow> values v ! r = NaN)"
      by (auto simp: vals column_values_def coerce_fails add.commute)
    with c have "\<exists>c \<in> set sel. \<forall>r < length (values v).
            values v ! r = coerceCell (cellAt (rows ! (r + ?k)) c) \<and>
            (\<not> numberLike (cellAt (rows ! (r + ?k)) c) \<longrightarrow> values v ! r = NaN)"
      by blast
    moreover have "\<forall>w \<in> set vars. length (values w) = length (values v)"
      by (simp add: len v)
    ultimately show "length (values v) = length rows - ?k \<and>
           (\<forall>w \<in> set vars. length (values w) = length (values v)) \<and>
           (\<exists>c \<in> set sel. \<forall>r < length (values v).
              values v ! r = coerceCell (cellAt (rows ! (r + ?k)) c) \<and>
              (\<not> numberLike (cellAt (rows ! (r + ?k)) c) \<longrightarrow> values v ! r = NaN))"
      using len[OF v] by blast
  qed
qed

text \<open>
  The table with the header row \<open>["Sales", "Visitors"]\<close> over the rows
  \<open>[10, 1]\<close>, \<open>["abc", 2]\<close>, \<open>[30, 3]\<close>: the header is detected, the four rows give
  series of length three, named by the header, and the same rows without the
  header row give the same values under the generated names.
\<close>

theorem column_series_aligned_witness:
  "detectHeaderRow table_sales = True \<and>
   handleAnalyze table_sales True Columns [0, 1] =
     Inr [\<lparr>name = Text ''Sales'', values = [Num 10, NaN, Num 30]\<rparr>,
          \<lparr>name = Text ''Visitors'', values = [Num 1, Num 2, Num 3]\<rparr>] \<and>
   length table_sales = 4 \<and>
   handleAnalyze (tl table_sales) False Columns [0, 1] =
     Inr [\<lparr>name = ColLabel 0, values = [Num 10, NaN, Num 30]\<rparr>,
          \<lparr>name = ColLabel 1, values = [Num 1, Num 2, Num 3]\<rparr>]"
proof -
  have ev: "handleAnalyze table_sales True Columns [0, 1] =
     Inr [\<lparr>name = Text ''Sales'', values = [Num 10, NaN, Num 30]\<rparr>,
          \<lparr>name = Text ''Visitors'', values = [Num 1, Num 2, Num 3]\<rparr>]"
    by (simp add: eval_analyze table_sales_def parse_abc)
  have ev2: "handleAnalyze (tl table_sales) False Columns [0, 1] =
     Inr [\<lparr>name = ColLabel 0, values = [Num 10, NaN, Num 30]\<rparr>,
          \<lparr>name = ColLabel 1, values = [Num 1, Num 2, Num 3]\<rparr>]"
    by (simp add: eval_analyze table_sales_def parse_abc)
  have hd: "detectHeaderRow table_sales = True"
    by (simp add: detectHeaderRow_def header_step_def table_sales_def parse_names)
  from column_series_aligned[OF ev] ev ev2 hd show ?thesis
    by (simp add: table_sales_def)
qed


section \<open>The gate on the number of series\<close>

text \<open>
  Claim C10. The function returns a matrix for every list of series: no index it
  uses is out of range. For the empty list the variables and the grid are empty,
  for a single series the grid is \<open>[[1]]\<close>; the function itself refuses nothing.
  The minimum of two series is the caller's: \<^verbatim>\<open>handleAnalyze\<close> passes on a list
  of at least two series or refuses.
\<close>

theorem matrix_total_degenerate:
  "(\<exists>m. generateCorrelationMatrix data = Inr m) \<and>
   generateCorrelationMatrix [] = Inr \<lparr>variables = [], grid = []\<rparr> \<and>
   generateCorrelationMatrix [d] = Inr \<lparr>variables = [name d], grid = [[Num 1]]\<rparr> \<and>
   (\<forall>vars. handleAnalyze rows h ori sel = Inr vars \<longrightarrow> 2 \<le> length vars)"
proof -
  have "\<exists>m. generateCorrelationMatrix data = Inr m"
    using generate_grid[of data] by blast
  moreover have "generateCorrelationMatrix [] = Inr \<lparr>variables = [], grid = []\<rparr>"
    by (simp add: generateCorrelationMatrix_def)
  moreover have "generateCorrelationMatrix [d] = Inr \<lparr>variables = [name d], grid = [[Num 1]]\<rparr>"
    by (simp add: generateCorrelationMatrix_def cell_step_def set_cell_def)
  moreover have "\<forall>vars. handleAnalyze rows h ori sel = Inr vars \<longrightarrow> 2 \<le> length vars"
    by (auto simp: handleAnalyze_unfold split: if_splits)
  ultimately show ?thesis by blast
qed

theorem matrix_total_degenerate_witness:
  "generateCorrelationMatrix [\<lparr>name = Text ''x'', values = [Num 1, Num 2]\<rparr>] =
     Inr \<lparr>variables = [Text ''x''], grid = [[Num 1]]\<rparr> \<and>
   handleAnalyze table_abc False Columns [0, 1] =
     Inr [\<lparr>name = ColLabel 0, values = [Num 1, Num 4]\<rparr>,
          \<lparr>name = ColLabel 1, values = [Num 2, Num 5]\<rparr>] \<and>
   handleAnalyze table_abc False Columns [0] = Inl TooFewSelected"
proof -
  have ev: "handleAnalyze table_abc False Columns [0, 1] =
     Inr [\<lparr>name = ColLabel 0, values = [Num 1, Num 4]\<rparr>,
          \<lparr>name = ColLabel 1, values = [Num 2, Num 5]\<rparr>]"
    "handleAnalyze table_abc False Columns [0] = Inl TooFewSelected"
    by (simp_all add: eval_analyze table_abc_def)
  from matrix_total_degenerate
    [of "[]" "\<lparr>name = Text ''x'', values = [Num 1, Num 2]\<rparr>" table_abc False Columns "[0, 1]"] ev
  show ?thesis by simp
qed

end
